theory Spec2Isabelle
  imports Main "HOL-Library.AList"
begin

section \<open>The UDP data sockets of PyExpLabSys (common/sockets.py)\<close>

text \<open>
  The module keeps one global dictionary \<open>DATA\<close>, from port numbers to the data of the
  socket server on that port, a request handler \<open>DataUDPHandler\<close> that answers a command
  string from that data, and two thread classes, \<open>DataSocket\<close> and \<open>DateDataSocket\<close>, that
  register an entry in \<open>DATA\<close>, bind a UDP server and update points.

  Conventions of the embedding:
  \<^item> a Python dictionary is an association list in insertion order (\<open>map_of\<close> looks a key
    up, \<open>AList.update\<close> is \<open>d[k] = v\<close>); no theorem below depends on the order in which
    a dictionary is enumerated;
  \<^item> an exception is the \<open>Inl\<close> of a sum, and a method that mutates \<open>DATA\<close> returns the
    state it leaves behind next to its result, also when it raises;
  \<^item> the numbers of a point and of a timeout (Python ints or floats) are a type variable
    \<open>'n\<close>; the two ways the handler prints a number (through \<open>'{}'.format\<close> and through
    \<open>json.dumps\<close>) are the fields of a record that every printing function takes;
  \<^item> \<open>time.time()\<close> is the argument \<open>now\<close>: one request is answered at one instant;
  \<^item> a string is a Python 2 \<open>str\<close>, a list of bytes: what the socket delivers and what
    the module's examples use for codenames; \<open>json.dumps\<close> decodes such a string as UTF-8
    when it has a byte above \<open>0x7F\<close>, and raises when it cannot.
\<close>

subsection \<open>Python builtins used by the module\<close>

datatype error =
    KeyError
  | NotImplementedError
  | UnpackError
  | PortExists nat
  | DuplicateCodename string
  | BadCharacter char
  | TimeoutsLength
  | AddressInUse
  | UnicodeDecodeError

text \<open>
  \<open>KeyError\<close> and \<open>NotImplementedError\<close> are Python's; \<open>UnpackError\<close> is the \<open>ValueError\<close>
  of a tuple assignment with the wrong number of values. \<open>PortExists\<close>,
  \<open>DuplicateCodename\<close>, \<open>BadCharacter\<close> and \<open>TimeoutsLength\<close> are the four \<open>ValueError\<close>s
  the constructors raise, told apart by their message. \<open>AddressInUse\<close> is the
  \<open>socket.error\<close> of binding a port that has an open socket, \<open>UnicodeDecodeError\<close> what
  \<open>json.dumps\<close> raises on a string that is not UTF-8.
\<close>

text \<open>\<open>sep.join(strings)\<close>\<close>

fun join :: "string \<Rightarrow> string list \<Rightarrow> string" where
  "join sep [] = []"
| "join sep [x] = x"
| "join sep (x # y # ys) = x @ sep @ join sep (y # ys)"

text \<open>\<open>s.split(sep)\<close> for a separator of one character\<close>

fun split :: "char \<Rightarrow> string \<Rightarrow> string list" where
  "split sep [] = [[]]"
| "split sep (c # cs) =
     (if c = sep then [] # split sep cs
      else (case split sep cs of
              [] \<Rightarrow> [[c]]
            | p # ps \<Rightarrow> (c # p) # ps))"

text \<open>\<open>d[k]\<close> and \<open>d.get(k)\<close> on a dictionary; the values of \<open>get\<close> may be \<open>None\<close> themselves\<close>

definition getitem :: "('k \<times> 'v) list \<Rightarrow> 'k \<Rightarrow> error + 'v" where
  "getitem d k = (case map_of d k of None \<Rightarrow> Inl KeyError | Some v \<Rightarrow> Inr v)"

definition get :: "('k \<times> 'v option) list \<Rightarrow> 'k \<Rightarrow> 'v option" where
  "get d k = (case map_of d k of None \<Rightarrow> None | Some v \<Rightarrow> v)"

text \<open>
  A loop that appends one computed item per element and is left by the first exception.
\<close>

fun for_each :: "('a \<Rightarrow> error + 'b) \<Rightarrow> 'a list \<Rightarrow> error + 'b list" where
  "for_each f [] = Inr []"
| "for_each f (x # xs) =
     (case f x of
        Inl e \<Rightarrow> Inl e
      | Inr y \<Rightarrow> (case for_each f xs of Inl e \<Rightarrow> Inl e | Inr ys \<Rightarrow> Inr (y # ys)))"

text \<open>How a number is printed: by \<open>'{}'.format\<close> and by \<open>json.dumps\<close>.\<close>

record 'n printer =
  str :: "'n \<Rightarrow> string"
  repr :: "'n \<Rightarrow> string"

text \<open>
  \<open>json.dumps\<close> with its default separators, on the objects the handler passes to it:
  strings, numbers, lists and tuples, and dictionaries with string keys.
\<close>

datatype 'n json =
    JString string
  | JNumber 'n
  | JArray "'n json list"
  | JObject "(string \<times> 'n json) list"

text \<open>
  \<open>s.decode('utf-8')\<close> of Python 2.7, on the values of the bytes, to code points: one byte
  below \<open>0x80\<close>; a lead byte \<open>0xC2\<close> to \<open>0xDF\<close> and one continuation byte; \<open>0xE0\<close> to
  \<open>0xEF\<close> and two (after \<open>0xE0\<close> the first from \<open>0xA0\<close>; surrogates are let through);
  \<open>0xF0\<close> to \<open>0xF4\<close> and three (after \<open>0xF0\<close> the first from \<open>0x90\<close>, after \<open>0xF4\<close> up
  to \<open>0x8F\<close>). Any other lead byte, a byte that is no continuation byte where one is due
  and a sequence cut short raise \<open>UnicodeDecodeError\<close>: the result is \<open>None\<close>.
\<close>

definition continuation :: "nat \<Rightarrow> bool" where
  "continuation b \<longleftrightarrow> 0x80 \<le> b \<and> b < 0xC0"

fun utf_8_decode :: "nat list \<Rightarrow> nat list option" where
  "utf_8_decode [] = Some []"
| "utf_8_decode (b # bs) =
     (if b < 0x80 then map_option (Cons b) (utf_8_decode bs)
      else if 0xC2 \<le> b \<and> b \<le> 0xDF then
        (case bs of
           b1 # rest \<Rightarrow>
             if continuation b1 then
               map_option (Cons ((b mod 0x20) * 0x40 + b1 mod 0x40)) (utf_8_decode rest)
             else None
         | _ \<Rightarrow> None)
      else if 0xE0 \<le> b \<and> b \<le> 0xEF then
        (case bs of
           b1 # b2 # rest \<Rightarrow>
             if continuation b1 \<and> continuation b2 \<and> \<not> (b = 0xE0 \<and> b1 < 0xA0) then
               map_option (Cons ((b mod 0x10) * 0x1000 + (b1 mod 0x40) * 0x40 + b2 mod 0x40))
                 (utf_8_decode rest)
             else None
         | _ \<Rightarrow> None)
      else if 0xF0 \<le> b \<and> b \<le> 0xF4 then
        (case bs of
           b1 # b2 # b3 # rest \<Rightarrow>
             if continuation b1 \<and> continuation b2 \<and> continuation b3 \<and>
                \<not> (b = 0xF0 \<and> b1 < 0x90) \<and> \<not> (b = 0xF4 \<and> 0x8F < b1) then
               map_option
                 (Cons ((b mod 0x08) * 0x40000 + (b1 mod 0x40) * 0x1000 +
                        (b2 mod 0x40) * 0x40 + b3 mod 0x40))
                 (utf_8_decode rest)
             else None
         | _ \<Rightarrow> None)
      else None)"

text \<open>
  \<open>encode_basestring_ascii\<close> of the \<open>json\<close> module: a \<open>str\<close> with a byte above \<open>0x7F\<close> is
  decoded first; then the quote, the backslash and every character outside the printable
  ASCII range are replaced, by a short escape or by \<open>\uXXXX\<close> (a surrogate pair above
  \<open>0xFFFF\<close>), and the result is put between quotes.
\<close>

definition hex_digit :: "nat \<Rightarrow> char" where
  "hex_digit n = ''0123456789abcdef'' ! (n mod 16)"

definition hex4 :: "nat \<Rightarrow> string" where
  "hex4 n = [hex_digit (n div 4096), hex_digit (n div 256), hex_digit (n div 16), hex_digit n]"

definition escape :: "nat \<Rightarrow> string" where
  "escape n =
     (if n = 0x22 then [CHR 0x5C, CHR 0x22]
      else if n = 0x5C then [CHR 0x5C, CHR 0x5C]
      else if n = 0x08 then [CHR 0x5C, CHR ''b'']
      else if n = 0x0C then [CHR 0x5C, CHR ''f'']
      else if n = 0x0A then [CHR 0x5C, CHR ''n'']
      else if n = 0x0D then [CHR 0x5C, CHR ''r'']
      else if n = 0x09 then [CHR 0x5C, CHR ''t'']
      else if 0x20 \<le> n \<and> n \<le> 0x7E then [char_of n]
      else if n < 0x10000 then [CHR 0x5C, CHR ''u''] @ hex4 n
      else [CHR 0x5C, CHR ''u''] @ hex4 (0xD800 + ((n - 0x10000) div 0x400) mod 0x400) @
           [CHR 0x5C, CHR ''u''] @ hex4 (0xDC00 + (n - 0x10000) mod 0x400))"

definition quote :: "nat list \<Rightarrow> string" where
  "quote cps = [CHR 0x22] @ concat (map escape cps) @ [CHR 0x22]"

definition encode_basestring_ascii :: "string \<Rightarrow> error + string" where
  "encode_basestring_ascii s =
     (if \<exists>c \<in> set s. 0x80 \<le> (of_char c :: nat) then
        (case utf_8_decode (map of_char s) of
           None \<Rightarrow> Inl UnicodeDecodeError
         | Some cps \<Rightarrow> Inr (quote cps))
      else Inr (quote (map of_char s)))"

text \<open>The items of a list or dictionary, encoded in order up to the first exception.\<close>

fun sequence :: "(error + 'a) list \<Rightarrow> error + 'a list" where
  "sequence [] = Inr []"
| "sequence (Inl e # rs) = Inl e"
| "sequence (Inr x # rs) = (case sequence rs of Inl e \<Rightarrow> Inl e | Inr xs \<Rightarrow> Inr (x # xs))"

fun dumps :: "'n printer \<Rightarrow> 'n json \<Rightarrow> error + string" where
  "dumps py (JString s) = encode_basestring_ascii s"
| "dumps py (JNumber n) = Inr (repr py n)"
| "dumps py (JArray xs) =
     (case sequence (map (dumps py) xs) of
        Inl e \<Rightarrow> Inl e
      | Inr items \<Rightarrow> Inr (''['' @ join '', '' items @ '']''))"
| "dumps py (JObject kvs) =
     (case sequence
             (map (\<lambda>(k, v).
                     case encode_basestring_ascii k of
                       Inl e \<Rightarrow> Inl e
                     | Inr key \<Rightarrow>
                         (case dumps py v of
                            Inl e \<Rightarrow> Inl e
                          | Inr val \<Rightarrow> Inr (key @ '': '' @ val)))
                kvs) of
        Inl e \<Rightarrow> Inl e
      | Inr items \<Rightarrow> Inr (''{'' @ join '', '' items @ ''}''))"

text \<open>A point \<open>(x, y)\<close> as \<open>json.dumps\<close> sees it, and as \<open>'{},{}'.format(*point)\<close> prints it.\<close>

definition tuple :: "'n \<times> 'n \<Rightarrow> 'n json" where
  "tuple point = JArray [JNumber (fst point), JNumber (snd point)]"

definition format_point :: "'n printer \<Rightarrow> 'n \<times> 'n \<Rightarrow> string" where
  "format_point py point = str py (fst point) @ '','' @ str py (snd point)"

subsection \<open>Module variables\<close>

definition BAD_CHARS :: "char list" where
  "BAD_CHARS = [CHR ''#'', CHR '','', CHR '';'', CHR '':'']"

definition UNKNOWN_COMMAND :: string where
  "UNKNOWN_COMMAND = ''UNKNOWN_COMMMAND''"

definition OLD_DATA :: string where
  "OLD_DATA = ''OLD_DATA''"

text \<open>
  The value of \<open>DATA[port]\<close>: \<open>{'type': ..., 'codenames': [...], 'data': {...},
  'timeouts': {...}}\<close>. A \<open>DataSocket\<close> has no \<open>timeouts\<close> entry, which nothing reads when
  the type is \<open>'data'\<close>; it is the empty dictionary here.
\<close>

record 'n dataset =
  type :: string
  codenames :: "string list"
  data :: "(string \<times> ('n \<times> 'n)) list"
  timeouts :: "(string \<times> 'n option) list"

subsection \<open>DataUDPHandler\<close>

text \<open>
  The methods read \<open>DATA[self.port]\<close> only; it is their argument \<open>d\<close>. \<open>handle\<close> returns
  the string it sends back.
\<close>

definition old_data :: "'n::{minus,ord} \<Rightarrow> 'n dataset \<Rightarrow> string \<Rightarrow> error + bool" where
  "old_data now d code_name =
     (if type d = ''date'' then
        (case get (timeouts d) code_name of
           Some timeout \<Rightarrow>
             (case getitem (data d) code_name of
                Inl e \<Rightarrow> Inl e
              | Inr point \<Rightarrow> Inr (now - fst point > timeout))
         | None \<Rightarrow> Inr False)
      else if type d = ''data'' then Inr False
      else Inl NotImplementedError)"

text \<open>
  The branch both loops and the single-value path share: \<open>old\<close> when the data of the
  codename has timed out, else \<open>fresh\<close> of the stored point.
\<close>

definition old_or ::
  "'n::{minus,ord} \<Rightarrow> 'n dataset \<Rightarrow> 'a \<Rightarrow> ('n \<times> 'n \<Rightarrow> 'a) \<Rightarrow> string \<Rightarrow> error + 'a" where
  "old_or now d old fresh codename =
     (case old_data now d codename of
        Inl e \<Rightarrow> Inl e
      | Inr True \<Rightarrow> Inr old
      | Inr False \<Rightarrow>
          (case getitem (data d) codename of
             Inl e \<Rightarrow> Inl e
           | Inr point \<Rightarrow> Inr (fresh point)))"

definition single_value ::
  "'n::{minus,ord} printer \<Rightarrow> 'n \<Rightarrow> 'n dataset \<Rightarrow> string \<Rightarrow> error + string" where
  "single_value py now d command =
     (case split CHR ''#'' command of
        [name, command] \<Rightarrow>
          if command = ''raw'' \<and> map_of (data d) name \<noteq> None then
            old_or now d OLD_DATA (format_point py) name
          else if command = ''json'' \<and> map_of (data d) name \<noteq> None then
            (case old_or now d (JString OLD_DATA) tuple name of
               Inl e \<Rightarrow> Inl e
             | Inr obj \<Rightarrow> dumps py obj)
          else Inr UNKNOWN_COMMAND
      | _ \<Rightarrow> Inl UnpackError)"

text \<open>
  The loop of \<open>json_wn\<close>: every codename whose data is old is overwritten in the copy.
\<close>

fun mark_old ::
  "'n::{minus,ord} \<Rightarrow> 'n dataset \<Rightarrow> string list \<Rightarrow> (string \<times> 'n json) list
     \<Rightarrow> error + (string \<times> 'n json) list" where
  "mark_old now d [] datacopy = Inr datacopy"
| "mark_old now d (codename # rest) datacopy =
     (case old_data now d codename of
        Inl e \<Rightarrow> Inl e
      | Inr True \<Rightarrow> mark_old now d rest (AList.update codename (JString OLD_DATA) datacopy)
      | Inr False \<Rightarrow> mark_old now d rest datacopy)"

definition all_values ::
  "'n::{minus,ord} printer \<Rightarrow> 'n \<Rightarrow> 'n dataset \<Rightarrow> string \<Rightarrow> error + string" where
  "all_values py now d command =
     (if command = ''raw'' then
        (case for_each (old_or now d OLD_DATA (format_point py)) (codenames d) of
           Inl e \<Rightarrow> Inl e
         | Inr strings \<Rightarrow> Inr (join '';'' strings))
      else if command = ''json'' then
        (case for_each (old_or now d (JString OLD_DATA) tuple) (codenames d) of
           Inl e \<Rightarrow> Inl e
         | Inr points \<Rightarrow> dumps py (JArray points))
      else if command = ''raw_wn'' then
        (case for_each
                (\<lambda>codename. old_or now d (codename @ '':'' @ OLD_DATA)
                   (\<lambda>point. codename @ '':'' @ format_point py point) codename)
                (codenames d) of
           Inl e \<Rightarrow> Inl e
         | Inr strings \<Rightarrow> Inr (join '';'' strings))
      else if command = ''json_wn'' then
        (case mark_old now d (codenames d) (map (\<lambda>(k, point). (k, tuple point)) (data d)) of
           Inl e \<Rightarrow> Inl e
         | Inr datacopy \<Rightarrow> dumps py (JObject datacopy))
      else if command = ''codenames_raw'' then Inr (join '','' (codenames d))
      else if command = ''codenames_json'' then
        dumps py (JArray (map JString (codenames d)))
      else Inr UNKNOWN_COMMAND)"

definition handle ::
  "'n::{minus,ord} printer \<Rightarrow> 'n \<Rightarrow> 'n dataset \<Rightarrow> string \<Rightarrow> error + string" where
  "handle py now d command =
     (if count_list command CHR ''#'' = 1 then single_value py now d command
      else all_values py now d command)"

subsection \<open>The process: \<open>DATA\<close> and the bound sockets\<close>

text \<open>
  The state the two thread classes act on: the module variable \<open>DATA\<close>, and the ports
  that have an open socket bound to them. \<open>SocketServer.UDPServer\<close> binds the port in
  its constructor and raises \<open>socket.error\<close> when the port already has an open socket
  (\<open>allow_reuse_address\<close> is off). An instance has its \<open>self.port\<close> and its
  \<open>self.server\<close>, of which the embedding keeps where its \<open>serve_forever\<close> loop stands:
  not entered yet, running, or left after a shutdown.
\<close>

record 'n world =
  DATA :: "nat \<rightharpoonup> 'n dataset"
  sockets :: "nat set"

datatype server_state = Constructed | Serving | Shut_down

record thread =
  self_port :: nat
  server :: server_state

definition UDPServer :: "nat \<Rightarrow> 'n world \<Rightarrow> (error + thread) \<times> 'n world" where
  "UDPServer port w =
     (if port \<in> sockets w then (Inl AddressInUse, w)
      else (Inr \<lparr>self_port = port, server = Constructed\<rparr>,
            w\<lparr>sockets := insert port (sockets w)\<rparr>))"

subsection \<open>DataSocket\<close>

text \<open>
  The loop of \<open>DataSocket.__init__\<close> over the codenames still to initialise; \<open>names\<close>
  is the argument \<open>codenames\<close> and \<open>d\<close> is \<open>DATA[port]\<close>, returned as the loop leaves it,
  also when it raises.
\<close>

fun init_data ::
  "string list \<Rightarrow> 'n \<times> 'n \<Rightarrow> string list \<Rightarrow> 'n dataset \<Rightarrow> (error + unit) \<times> 'n dataset" where
  "init_data names point [] d = (Inr (), d)"
| "init_data names point (name # rest) d =
     (if count_list names name > 1 then (Inl (DuplicateCodename name), d)
      else (case find (\<lambda>char. char \<in> set name) BAD_CHARS of
              Some char \<Rightarrow> (Inl (BadCharacter char), d)
            | None \<Rightarrow>
                init_data names point rest (d\<lparr>data := AList.update name point (data d)\<rparr>)))"

definition DataSocket_init ::
  "string list \<Rightarrow> nat \<Rightarrow> 'n \<Rightarrow> 'n \<Rightarrow> 'n world \<Rightarrow> (error + thread) \<times> 'n world" where
  "DataSocket_init names port default_x default_y w =
     (if port \<in> dom (DATA w) then (Inl (PortExists port), w)
      else
        (case init_data names (default_x, default_y) names
                \<lparr>type = ''data'', codenames = names, data = [], timeouts = []\<rparr> of
           (Inl e, d) \<Rightarrow> (Inl e, w\<lparr>DATA := (DATA w)(port \<mapsto> d)\<rparr>)
         | (Inr u, d) \<Rightarrow> UDPServer port (w\<lparr>DATA := (DATA w)(port \<mapsto> d)\<rparr>)))"

text \<open>
  \<open>run\<close>, \<open>stop\<close> and \<open>set_point\<close> have the same body in both classes. \<open>run\<close> is the body
  of the thread: \<open>self.server.serve_forever()\<close>, which serves requests until a shutdown; what it
  leaves for the other methods is that the loop has been entered.
\<close>

definition run :: "thread \<Rightarrow> thread" where
  "run self = self\<lparr>server := Serving\<rparr>"

text \<open>
  \<open>self.server.shutdown()\<close> asks the loop to end and waits for the event that
  \<open>serve_forever\<close> sets when it is left: on a server whose loop was never entered it waits
  for ever, and \<open>stop\<close> does not return (\<open>None\<close>). It does not close the socket, and
  nothing in the module calls \<open>server_close\<close>. \<open>del DATA[self.port]\<close> raises \<open>KeyError\<close>
  when the entry is gone.
\<close>

definition stop :: "thread \<Rightarrow> 'n world \<Rightarrow> ((error + unit) \<times> thread \<times> 'n world) option" where
  "stop self w =
     (case server self of
        Constructed \<Rightarrow> None
      | _ \<Rightarrow>
          Some (if self_port self \<in> dom (DATA w)
                then (Inr (), self\<lparr>server := Shut_down\<rparr>,
                      w\<lparr>DATA := (DATA w)(self_port self := None)\<rparr>)
                else (Inl KeyError, self\<lparr>server := Shut_down\<rparr>, w)))"

definition set_point ::
  "thread \<Rightarrow> string \<Rightarrow> 'n \<times> 'n \<Rightarrow> 'n world \<Rightarrow> (error + unit) \<times> 'n world" where
  "set_point self codename point w =
     (case DATA w (self_port self) of
        None \<Rightarrow> (Inl KeyError, w)
      | Some d \<Rightarrow>
          (Inr (),
           w\<lparr>DATA := (DATA w)(self_port self \<mapsto>
                 d\<lparr>data := AList.update codename point (data d)\<rparr>)\<rparr>))"

subsection \<open>DateDataSocket\<close>

text \<open>
  The argument \<open>timeouts\<close> (here \<open>touts\<close>) is one value for every codename (\<open>None\<close> by
  default) or, when it has a length, one value per codename.
\<close>

datatype 'n timeouts_arg = Single "'n option" | Several "'n option list"

fun init_date ::
  "string list \<Rightarrow> 'n \<times> 'n \<Rightarrow> (string \<times> 'n option) list \<Rightarrow> 'n dataset
     \<Rightarrow> (error + unit) \<times> 'n dataset" where
  "init_date names point [] d = (Inr (), d)"
| "init_date names point ((name, timeout) # rest) d =
     (if count_list names name > 1 then (Inl (DuplicateCodename name), d)
      else (case find (\<lambda>char. char \<in> set name) BAD_CHARS of
              Some char \<Rightarrow> (Inl (BadCharacter char), d)
            | None \<Rightarrow>
                init_date names point rest
                  (d\<lparr>data := AList.update name point (data d),
                     timeouts := AList.update name timeout (timeouts d)\<rparr>)))"

definition convert_timeouts :: "string list \<Rightarrow> 'n timeouts_arg \<Rightarrow> error + 'n option list" where
  "convert_timeouts names touts =
     (case touts of
        Several ts \<Rightarrow> if length ts \<noteq> length names then Inl TimeoutsLength else Inr ts
      | Single t \<Rightarrow> Inr (replicate (length names) t))"

definition DateDataSocket_init ::
  "string list \<Rightarrow> nat \<Rightarrow> 'n \<Rightarrow> 'n \<Rightarrow> 'n timeouts_arg \<Rightarrow> 'n world
     \<Rightarrow> (error + thread) \<times> 'n world" where
  "DateDataSocket_init names port default_x default_y touts w =
     (if port \<in> dom (DATA w) then (Inl (PortExists port), w)
      else
        (case convert_timeouts names touts of
           Inl e \<Rightarrow> (Inl e, w)
         | Inr ts \<Rightarrow>
             (case init_date names (default_x, default_y) (zip names ts)
                     \<lparr>type = ''date'', codenames = names, data = [], timeouts = []\<rparr> of
                (Inl e, d) \<Rightarrow> (Inl e, w\<lparr>DATA := (DATA w)(port \<mapsto> d)\<rparr>)
              | (Inr u, d) \<Rightarrow> UDPServer port (w\<lparr>DATA := (DATA w)(port \<mapsto> d)\<rparr>))))"

definition set_point_now ::
  "'n \<Rightarrow> thread \<Rightarrow> string \<Rightarrow> 'n \<Rightarrow> 'n world \<Rightarrow> (error + unit) \<times> 'n world" where
  "set_point_now now self codename val w = set_point self codename (now, val) w"

text \<open>A run of \<open>set_point\<close> calls of one instance, in order.\<close>

fun set_points :: "thread \<Rightarrow> (string \<times> ('n \<times> 'n)) list \<Rightarrow> 'n world \<Rightarrow> 'n world" where
  "set_points self [] w = w"
| "set_points self ((codename, point) # rest) w =
     set_points self rest (snd (set_point self codename point w))"

subsection \<open>The invariants of an entry of \<open>DATA\<close>\<close>

text \<open>
  What the constructors establish and \<open>set_point\<close> keeps: the codenames are distinct and
  free of the characters of \<open>BAD_CHARS\<close>, a dictionary has one entry per key, every
  codename has a point and, in a \<open>'date'\<close> entry, a timeout (which may be \<open>None\<close>).
\<close>

definition dataset_inv :: "'n dataset \<Rightarrow> bool" where
  "dataset_inv d \<longleftrightarrow>
     distinct (codenames d) \<and>
     (\<forall>name \<in> set (codenames d). \<forall>char \<in> set BAD_CHARS. char \<notin> set name) \<and>
     distinct (map fst (data d)) \<and>
     set (codenames d) \<subseteq> fst ` set (data d) \<and>
     (type d = ''date'' \<longrightarrow>
        distinct (map fst (timeouts d)) \<and> set (codenames d) \<subseteq> fst ` set (timeouts d))"

text \<open>The codenames a constructor accepts: no duplicate and no character of \<open>BAD_CHARS\<close>.\<close>

definition valid_codenames :: "string list \<Rightarrow> bool" where
  "valid_codenames names \<longleftrightarrow>
     distinct names \<and> (\<forall>name \<in> set names. \<forall>char \<in> set BAD_CHARS. char \<notin> set name)"

text \<open>The entries the constructors leave in \<open>DATA\<close> when they accept the codenames.\<close>

definition new_data :: "string list \<Rightarrow> 'n \<Rightarrow> 'n \<Rightarrow> 'n dataset" where
  "new_data names x y =
     \<lparr>type = ''data'', codenames = names, data = map (\<lambda>name. (name, (x, y))) names,
      timeouts = []\<rparr>"

definition new_date :: "string list \<Rightarrow> 'n \<Rightarrow> 'n \<Rightarrow> 'n option list \<Rightarrow> 'n dataset" where
  "new_date names x y ts =
     \<lparr>type = ''date'', codenames = names, data = map (\<lambda>name. (name, (x, y))) names,
      timeouts = zip names ts\<rparr>"

text \<open>The strings \<open>json.dumps\<close> encodes: ASCII, or UTF-8 that Python 2.7 decodes.\<close>

definition valid_utf8 :: "string \<Rightarrow> bool" where
  "valid_utf8 s \<longleftrightarrow> utf_8_decode (map of_char s) \<noteq> None"

text \<open>The commands \<open>_all_values\<close> knows.\<close>

definition bulk_commands :: "string list" where
  "bulk_commands = [''raw'', ''json'', ''raw_wn'', ''json_wn'', ''codenames_raw'', ''codenames_json'']"

subsection \<open>Printers and states used in the examples\<close>

text \<open>
  \<open>str\<close> of a Python int: its decimal digits, after a minus sign when it is negative.
  \<open>json.dumps\<close> prints an int the same way.
\<close>

fun digits :: "nat \<Rightarrow> string" where
  "digits n =
     (if n < 10 then [''0123456789'' ! n] else digits (n div 10) @ [''0123456789'' ! (n mod 10)])"

declare digits.simps [simp del]

definition str_int :: "int \<Rightarrow> string" where
  "str_int i = (if i < 0 then CHR ''-'' # digits (nat (- i)) else digits (nat i))"

definition python_ints :: "int printer" where
  "python_ints = \<lparr>str = str_int, repr = str_int\<rparr>"

text \<open>
  A float whose value is a whole number (of magnitude below \<open>10^11\<close>), given by that
  number: Python subtracts and compares such floats exactly and prints them, through
  \<open>str\<close> and through \<open>repr\<close>, with \<open>.0\<close> after the digits.
\<close>

definition whole_floats :: "int printer" where
  "whole_floats = \<lparr>str = (\<lambda>i. str_int i @ ''.0''), repr = (\<lambda>i. str_int i @ ''.0'')\<rparr>"

definition empty_world :: "int world" where
  "empty_world = \<lparr>DATA = Map.empty, sockets = {}\<rparr>"

text \<open>The example of the module's documentation of \<open>DATA\<close>, with whole numbers.\<close>

definition example_date :: "int dataset" where
  "example_date =
     \<lparr>type = ''date'', codenames = [''ex1'', ''ex2''],
      data = [(''ex1'', (1234, 47)), (''ex2'', (1230, 42))],
      timeouts = [(''ex1'', Some 3), (''ex2'', None)]\<rparr>"

definition example_data :: "int dataset" where
  "example_data =
     \<lparr>type = ''data'', codenames = [''ex1'', ''ex2''],
      data = [(''ex1'', (47, 47)), (''ex2'', (47, 47))], timeouts = []\<rparr>"

text \<open>
  A process in which a \<open>DataSocket\<close> has been constructed on port 9000, that instance once
  its thread runs, and the process without the entry of the port.
\<close>

definition running_world :: "int world" where
  "running_world = snd (DataSocket_init [''ex1'', ''ex2''] 9000 47 47 empty_world)"

definition running_thread :: thread where
  "running_thread = run \<lparr>self_port = 9000, server = Constructed\<rparr>"

definition stopped_world :: "int world" where
  "stopped_world = running_world\<lparr>DATA := (DATA running_world)(9000 := None)\<rparr>"

section \<open>Properties\<close>

subsection \<open>The builtins\<close>

lemma length_split: "length (split sep s) = Suc (count_list s sep)"
  by (induction s) (auto split: list.splits)

lemma split_notin: "sep \<notin> set s \<Longrightarrow> split sep s = [s]"
  by (induction s) auto

lemma split_one:
  "count_list s sep = 1 \<Longrightarrow>
   \<exists>a b. split sep s = [a, b] \<and> s = a @ sep # b \<and> sep \<notin> set a \<and> sep \<notin> set b"
proof (induction s)
  case Nil
  then show ?case by simp
next
  case (Cons c cs)
  show ?case
  proof (cases "c = sep")
    case True
    with Cons.prems have "count_list cs sep = 0" by simp
    then have ns: "sep \<notin> set cs" by (simp add: count_list_0_iff)
    then have "split sep cs = [cs]" by (rule split_notin)
    with True ns show ?thesis by auto
  next
    case False
    with Cons.prems have "count_list cs sep = 1" by simp
    from Cons.IH[OF this] obtain a b where
      "split sep cs = [a, b]" "cs = a @ sep # b" "sep \<notin> set a" "sep \<notin> set b" by blast
    with False show ?thesis by auto
  qed
qed

lemma for_each_total:
  "(\<And>x. x \<in> set xs \<Longrightarrow> \<exists>y. f x = Inr y) \<Longrightarrow> \<exists>ys. for_each f xs = Inr ys"
proof (induction xs)
  case Nil
  then show ?case by simp
next
  case (Cons x xs)
  then obtain y where "f x = Inr y" by auto
  moreover from Cons obtain ys where "for_each f xs = Inr ys" by auto
  ultimately show ?case by simp
qed

subsection \<open>The JSON encoder\<close>

lemma sequence_map: "sequence (map f xs) = for_each f xs"
proof (induction xs)
  case Nil
  then show ?case by simp
next
  case (Cons x xs)
  then show ?case by (cases "f x") simp_all
qed

lemma utf_8_decode_ascii: "\<forall>b \<in> set bs. b < 0x80 \<Longrightarrow> utf_8_decode bs = Some bs"
  by (induction bs) simp_all

lemma encode_ascii:
  assumes "\<forall>c \<in> set s. (of_char c :: nat) < 0x80"
  shows "encode_basestring_ascii s = Inr (quote (map of_char s))"
proof -
  have "\<not> (\<exists>c \<in> set s. 0x80 \<le> (of_char c :: nat))" using assms by (simp add: not_le)
  then show ?thesis by (simp only: encode_basestring_ascii_def if_False)
qed

lemma ascii_valid: "\<forall>c \<in> set s. (of_char c :: nat) < 0x80 \<Longrightarrow> valid_utf8 s"
proof -
  assume "\<forall>c \<in> set s. (of_char c :: nat) < 0x80"
  then have "\<forall>b \<in> set (map of_char s). b < (0x80 :: nat)" by auto
  then have "utf_8_decode (map of_char s) = Some (map of_char s)" by (rule utf_8_decode_ascii)
  then show ?thesis by (simp add: valid_utf8_def)
qed

lemma encode_valid:
  assumes "valid_utf8 s"
  shows "\<exists>cps. utf_8_decode (map of_char s) = Some cps \<and>
               encode_basestring_ascii s = Inr (quote cps)"
proof -
  from assms obtain cps where c: "utf_8_decode (map of_char s) = Some cps"
    by (auto simp: valid_utf8_def)
  show ?thesis
  proof (cases "\<exists>c \<in> set s. 0x80 \<le> (of_char c :: nat)")
    case True
    then show ?thesis using c by (simp add: encode_basestring_ascii_def)
  next
    case False
    then have "\<forall>b \<in> set (map of_char s). b < (0x80 :: nat)" by (auto simp: not_le)
    then have "utf_8_decode (map of_char s) = Some (map of_char s)"
      by (rule utf_8_decode_ascii)
    with c have "cps = map of_char s" by simp
    with False c show ?thesis by (simp add: encode_basestring_ascii_def)
  qed
qed

lemma encode_invalid:
  assumes "\<not> valid_utf8 s"
  shows "encode_basestring_ascii s = Inl UnicodeDecodeError"
proof -
  from assms have u: "utf_8_decode (map of_char s) = None" by (simp add: valid_utf8_def)
  have "\<exists>c \<in> set s. 0x80 \<le> (of_char c :: nat)"
  proof (rule ccontr)
    assume "\<not> (\<exists>c \<in> set s. 0x80 \<le> (of_char c :: nat))"
    then have "\<forall>c \<in> set s. (of_char c :: nat) < 0x80" by (auto simp: not_le)
    then have "valid_utf8 s" by (rule ascii_valid)
    with assms show False by simp
  qed
  then show ?thesis using u by (simp add: encode_basestring_ascii_def)
qed

lemma encode_error: "encode_basestring_ascii s = Inl e \<Longrightarrow> e = UnicodeDecodeError"
  by (cases "valid_utf8 s") (auto dest: encode_valid encode_invalid)

lemma dumps_tuple:
  "dumps py (tuple (x, y)) = Inr (''['' @ repr py x @ '', '' @ repr py y @ '']'')"
  by (simp add: tuple_def)

lemma encode_OLD_DATA: "encode_basestring_ascii OLD_DATA = Inr ''\"OLD_DATA\"''"
  by (simp add: encode_basestring_ascii_def OLD_DATA_def quote_def escape_def char_of_eq_iff)

lemma dumps_OLD_DATA: "dumps py (JString OLD_DATA) = Inr ''\"OLD_DATA\"''"
  by (simp add: encode_OLD_DATA)

lemma for_each_total_items:
  assumes "\<And>x. x \<in> set xs \<Longrightarrow> \<exists>y. f x = Inr y"
  shows "\<exists>ys. for_each f xs = Inr ys \<and> length ys = length xs"
  using assms
proof (induction xs)
  case Nil
  then show ?case by simp
next
  case (Cons x xs)
  then obtain y where "f x = Inr y" by auto
  moreover from Cons obtain ys where "for_each f xs = Inr ys" "length ys = length xs" by auto
  ultimately show ?case by simp
qed

lemma for_each_fails:
  assumes "x \<in> set xs" "f x = Inl e" "\<And>x e'. f x = Inl e' \<Longrightarrow> e' = e"
  shows "for_each f xs = Inl e"
  using assms(1)
proof (induction xs)
  case Nil
  then show ?case by simp
next
  case (Cons a xs)
  show ?case
  proof (cases "f a")
    case (Inl e')
    with assms(3) show ?thesis by simp
  next
    case (Inr y)
    with Cons assms(2) have "for_each f xs = Inl e" by auto
    with Inr show ?thesis by simp
  qed
qed

subsection \<open>The staleness test\<close>

lemma old_data_total:
  fixes now :: "'n::{minus,ord}"
  assumes "type d = ''data'' \<or> type d = ''date''" "map_of (data d) c \<noteq> None"
  shows "\<exists>b. old_data now d c = Inr b"
  using assms by (auto simp: old_data_def get_def getitem_def split: option.splits)

lemma old_data_date:
  fixes now :: "'n::{minus,ord}"
  assumes "type d = ''date''"
  shows "old_data now d c = Inr True \<longleftrightarrow>
         (\<exists>t x y. map_of (timeouts d) c = Some (Some t) \<and>
                  map_of (data d) c = Some (x, y) \<and> now - x > t)"
  using assms by (auto simp: old_data_def get_def getitem_def split: option.splits)

text \<open>
  Claim C3. In an entry of type \<open>'data'\<close> no codename is ever old. In an entry of type
  \<open>'date'\<close> a codename is old exactly when its timeout is set (it is not \<open>None\<close>) and
  \<open>now - x > timeout\<close> for the \<open>x\<close> of its point, and the test returns whenever the
  codename has a point. The inequality is strict: a point for which \<open>now - x\<close> is the
  timeout is not old, one for which it is more is. Of the numbers nothing is used but
  that they are ordered and have a subtraction: \<open>now - x\<close> is the difference as the
  program computes it, for floats the rounded one, and the boundary is where that
  difference equals the timeout, which for floats is not the same condition as \<open>x\<close>
  being the computed \<open>now - timeout\<close>.
\<close>

theorem old_data_staleness:
  fixes now :: "'n::{minus,order}"
  shows "(type d = ''data'' \<longrightarrow> old_data now d c = Inr False) \<and>
         (type d = ''date'' \<longrightarrow>
            (old_data now d c = Inr True \<longleftrightarrow>
               (\<exists>t x y. map_of (timeouts d) c = Some (Some t) \<and>
                        map_of (data d) c = Some (x, y) \<and> now - x > t))) \<and>
         (type d = ''date'' \<and> map_of (data d) c \<noteq> None \<longrightarrow>
            (\<exists>b. old_data now d c = Inr b)) \<and>
         (type d = ''date'' \<and> map_of (timeouts d) c = Some (Some t) \<and>
          map_of (data d) c = Some (x, y) \<and> now - x = t \<longrightarrow> old_data now d c = Inr False) \<and>
         (type d = ''date'' \<and> map_of (timeouts d) c = Some (Some t) \<and>
          map_of (data d) c = Some (x, y) \<and> t < now - x \<longrightarrow> old_data now d c = Inr True) \<and>
         (type d = ''date'' \<and> map_of (timeouts d) c = Some None \<longrightarrow>
            old_data now d c = Inr False) \<and>
         (type d = ''date'' \<and> map_of (timeouts d) c = None \<longrightarrow>
            old_data now d c = Inr False)"
proof (intro conjI impI)
  assume "type d = ''data''"
  then show "old_data now d c = Inr False" by (simp add: old_data_def)
next
  assume "type d = ''date''"
  then show "old_data now d c = Inr True \<longleftrightarrow>
    (\<exists>t x y. map_of (timeouts d) c = Some (Some t) \<and>
             map_of (data d) c = Some (x, y) \<and> now - x > t)"
    by (rule old_data_date)
next
  assume "type d = ''date'' \<and> map_of (data d) c \<noteq> None"
  then show "\<exists>b. old_data now d c = Inr b" by (simp add: old_data_total)
next
  assume "type d = ''date'' \<and> map_of (timeouts d) c = Some (Some t) \<and>
          map_of (data d) c = Some (x, y) \<and> now - x = t"
  then show "old_data now d c = Inr False"
    by (simp add: old_data_def get_def getitem_def)
next
  assume "type d = ''date'' \<and> map_of (timeouts d) c = Some (Some t) \<and>
          map_of (data d) c = Some (x, y) \<and> t < now - x"
  then show "old_data now d c = Inr True"
    by (simp add: old_data_def get_def getitem_def)
next
  assume "type d = ''date'' \<and> map_of (timeouts d) c = Some None"
  then show "old_data now d c = Inr False"
    by (simp add: old_data_def get_def)
next
  assume "type d = ''date'' \<and> map_of (timeouts d) c = None"
  then show "old_data now d c = Inr False"
    by (simp add: old_data_def get_def)
qed

theorem old_data_staleness_witness:
  "type example_date = ''date'' \<and>
   map_of (timeouts example_date) ''ex1'' = Some (Some 3) \<and>
   map_of (data example_date) ''ex1'' = Some (1234, 47) \<and>
   (1237::int) - 1234 = 3 \<and>
   old_data 1237 example_date ''ex1'' = Inr False \<and>
   (3::int) < 1238 - 1234 \<and>
   old_data 1238 example_date ''ex1'' = Inr True \<and>
   map_of (timeouts example_date) ''ex2'' = Some None \<and>
   old_data 1238 example_date ''ex2'' = Inr False \<and>
   type example_data = ''data'' \<and>
   old_data 1238 example_data ''ex1'' = Inr False"
proof -
  have t: "type example_date = ''date''" by (simp add: example_date_def)
  have m: "map_of (timeouts example_date) ''ex1'' = Some (Some 3)"
    by (simp add: example_date_def)
  have p: "map_of (data example_date) ''ex1'' = Some (1234, 47)"
    by (simp add: example_date_def)
  have n: "map_of (timeouts example_date) ''ex2'' = Some None"
    by (simp add: example_date_def)
  have u: "type example_data = ''data''" by (simp add: example_data_def)
  have "old_data 1237 example_date ''ex1'' = Inr False"
    using old_data_staleness [where d = example_date and now = 1237 and c = "''ex1''"
                                and t = 3 and y = 47 and x = 1234] t m p
    by simp
  moreover have "old_data 1238 example_date ''ex1'' = Inr True"
    using old_data_staleness [where d = example_date and now = 1238 and c = "''ex1''"
                                and t = 3 and y = 47 and x = 1234] t m p
    by simp
  moreover have "old_data 1238 example_date ''ex2'' = Inr False"
    using old_data_staleness [where d = example_date and now = 1238 and c = "''ex2''"
                                and t = 3 and y = 47 and x = 1234] t n
    by simp
  moreover have "old_data 1238 example_data ''ex1'' = Inr False"
    using old_data_staleness [where d = example_data and now = 1238 and c = "''ex1''"
                                and t = 3 and y = 47 and x = 1234] u
    by simp
  ultimately show ?thesis using t m p n u by simp
qed

subsection \<open>The sentinels\<close>

text \<open>
  Claim C1. The claim has every unrecognised command answered with the string
  \<open>UNKNOWN_COMMAND\<close>. The value of the module variable of that name is spelled with
  three \<open>M\<close>s, and that is what the command \<open>foo\<close> is answered with, on every entry.
\<close>

theorem unknown_command_reply:
  fixes now :: "'n::{minus,ord}"
  shows "handle py now d ''foo'' = Inr ''UNKNOWN_COMMMAND'' \<and>
         handle py now d ''foo'' \<noteq> Inr ''UNKNOWN_COMMAND''"
  by (simp add: handle_def all_values_def UNKNOWN_COMMAND_def)

subsection \<open>The handler\<close>

lemma bulk_no_hash: "command \<in> set bulk_commands \<Longrightarrow> count_list command CHR ''#'' = 0"
  by (auto simp: bulk_commands_def)

lemma all_values_unknown:
  fixes now :: "'n::{minus,ord}"
  shows "command \<notin> set bulk_commands \<Longrightarrow> all_values py now d command = Inr UNKNOWN_COMMAND"
  by (simp add: all_values_def bulk_commands_def)

lemma old_or_total:
  fixes now :: "'n::{minus,ord}"
  assumes "type d = ''data'' \<or> type d = ''date''" "map_of (data d) c \<noteq> None"
  shows "\<exists>r. old_or now d old fresh c = Inr r"
proof -
  from old_data_total[OF assms] obtain b where "old_data now d c = Inr b" by blast
  with assms(2) show ?thesis by (cases b) (auto simp: old_or_def getitem_def)
qed

lemma mark_old_total:
  fixes now :: "'n::{minus,ord}"
  assumes "type d = ''data'' \<or> type d = ''date''"
    and "\<And>c. c \<in> set cs \<Longrightarrow> map_of (data d) c \<noteq> None"
  shows "\<exists>r. mark_old now d cs datacopy = Inr r"
  using assms(2)
proof (induction cs arbitrary: datacopy)
  case Nil
  then show ?case by simp
next
  case (Cons c cs)
  from old_data_total[OF assms(1), of c now] Cons.prems
  obtain b where "old_data now d c = Inr b" by auto
  with Cons show ?case by (cases b) auto
qed

lemma single_value_split:
  fixes now :: "'n::{minus,ord}"
  assumes "CHR ''#'' \<notin> set name" "CHR ''#'' \<notin> set mode"
  shows "split CHR ''#'' (name @ ''#'' @ mode) = [name, mode]"
  using assms(1)
proof (induction name)
  case Nil
  then show ?case using assms(2) by (simp add: split_notin)
next
  case (Cons c cs)
  then show ?case by auto
qed

lemma for_each_items:
  assumes "for_each f xs = Inr ys" "y \<in> set ys"
  shows "\<exists>x \<in> set xs. f x = Inr y"
  using assms
proof (induction xs arbitrary: ys)
  case Nil
  then show ?case by simp
next
  case (Cons a xs)
  from Cons.prems(1) obtain b bs where b: "f a = Inr b" "for_each f xs = Inr bs" "ys = b # bs"
    by (auto split: sum.splits)
  with Cons.prems(2) Cons.IH[OF b(2)] show ?case by auto
qed

lemma old_or_cases:
  fixes now :: "'n::{minus,ord}"
  assumes "old_or now d old fresh c = Inr r"
  shows "r = old \<or> (\<exists>point. r = fresh point)"
  using assms
  by (auto simp: old_or_def split: sum.splits bool.splits)

lemma sequence_total:
  "(\<And>r. r \<in> set rs \<Longrightarrow> \<exists>x. r = Inr x) \<Longrightarrow> \<exists>xs. sequence rs = Inr xs"
proof (induction rs)
  case Nil
  then show ?case by simp
next
  case (Cons r rs)
  then obtain x where "r = Inr x" by auto
  moreover from Cons obtain xs where "sequence rs = Inr xs" by auto
  ultimately show ?case by simp
qed

lemma dumps_point_or_old:
  assumes "obj = JString OLD_DATA \<or> (\<exists>point. obj = tuple point)"
  shows "\<exists>t. dumps py obj = Inr t"
  using assms dumps_OLD_DATA[of py] by (auto simp: tuple_def)

lemma dumps_array_total:
  assumes "\<And>x. x \<in> set xs \<Longrightarrow> \<exists>t. dumps py x = Inr t"
  shows "\<exists>r. dumps py (JArray xs) = Inr r"
proof -
  have "\<exists>items. sequence (map (dumps py) xs) = Inr items"
    by (rule sequence_total) (use assms in auto)
  then show ?thesis by auto
qed

lemma dumps_object_total:
  assumes "\<And>k v. (k, v) \<in> set kvs \<Longrightarrow> valid_utf8 k \<and> (\<exists>t. dumps py v = Inr t)"
  shows "\<exists>r. dumps py (JObject kvs) = Inr r"
proof -
  let ?item = "\<lambda>(k, v). case encode_basestring_ascii k of
                       Inl e \<Rightarrow> Inl e
                     | Inr key \<Rightarrow>
                         (case dumps py v of
                            Inl e \<Rightarrow> Inl e
                          | Inr val \<Rightarrow> Inr (key @ '': '' @ val))"
  have "\<exists>x. r = Inr x" if "r \<in> set (map ?item kvs)" for r
  proof -
    from that obtain k v where kv: "(k, v) \<in> set kvs" "r = ?item (k, v)" by auto
    from assms[OF kv(1)] encode_valid[of k] obtain key t where
      "encode_basestring_ascii k = Inr key" "dumps py v = Inr t" by blast
    with kv(2) show ?thesis by simp
  qed
  then have "\<exists>items. sequence (map ?item kvs) = Inr items" by (rule sequence_total)
  then show ?thesis by auto
qed

lemma mark_old_items:
  fixes now :: "'n::{minus,ord}"
  assumes "mark_old now d cs datacopy = Inr r" "(k, v) \<in> set r"
  shows "(k, v) \<in> set datacopy \<or> (k \<in> set cs \<and> v = JString OLD_DATA)"
  using assms
proof (induction cs arbitrary: datacopy)
  case Nil
  then show ?case by simp
next
  case (Cons a cs)
  from Cons.prems(1) obtain b where b: "old_data now d a = Inr b"
    by (cases "old_data now d a") auto
  show ?case
  proof (cases b)
    case True
    with b Cons.prems have
      "mark_old now d cs (AList.update a (JString OLD_DATA) datacopy) = Inr r" by simp
    from Cons.IH[OF this Cons.prems(2)]
    have "(k, v) \<in> set (AList.update a (JString OLD_DATA) datacopy) \<or>
          (k \<in> set cs \<and> v = JString OLD_DATA)" .
    moreover have "(k, v) \<in> set datacopy \<or> (k = a \<and> v = JString OLD_DATA)"
      if "(k, v) \<in> set (AList.update a (JString OLD_DATA) datacopy)"
      using that by (induction datacopy) (auto split: if_splits)
    ultimately show ?thesis by auto
  next
    case False
    with b Cons.prems have "mark_old now d cs datacopy = Inr r" by simp
    from Cons.IH[OF this Cons.prems(2)] show ?thesis by auto
  qed
qed

text \<open>A codename whose data is old is answered with \<open>OLD_DATA\<close>, quoted in the JSON mode.\<close>

lemma old_data_replies:
  fixes now :: "'n::{minus,ord}"
  assumes "old_data now d name = Inr True" "CHR ''#'' \<notin> set name"
    "map_of (data d) name \<noteq> None"
  shows "handle py now d (name @ ''#raw'') = Inr ''OLD_DATA'' \<and>
         handle py now d (name @ ''#json'') = Inr ''\"OLD_DATA\"''"
proof -
  have r: "split CHR ''#'' (name @ ''#raw'') = [name, ''raw'']"
    using single_value_split[of name "''raw''"] assms(2) by simp
  have j: "split CHR ''#'' (name @ ''#json'') = [name, ''json'']"
    using single_value_split[of name "''json''"] assms(2) by simp
  have c: "count_list (name @ ''#raw'') CHR ''#'' = 1" "count_list (name @ ''#json'') CHR ''#'' = 1"
    using assms(2) by (simp_all add: count_list_0_iff)
  have o: "old_or now d OLD_DATA (format_point py) name = Inr OLD_DATA"
    "old_or now d (JString OLD_DATA) tuple name = Inr (JString OLD_DATA)"
    using assms(1) by (simp_all add: old_or_def)
  have "handle py now d (name @ ''#raw'') = single_value py now d (name @ ''#raw'')"
    by (simp only: handle_def c) simp
  moreover have "single_value py now d (name @ ''#raw'') = Inr ''OLD_DATA''"
    using assms(3) by (simp add: single_value_def r o) (simp add: OLD_DATA_def)
  moreover have "handle py now d (name @ ''#json'') = single_value py now d (name @ ''#json'')"
    by (simp only: handle_def c) simp
  moreover have "single_value py now d (name @ ''#json'') = Inr ''\"OLD_DATA\"''"
    using assms(3) dumps_OLD_DATA[of py] by (simp add: single_value_def j o)
  ultimately show ?thesis by simp
qed


lemma all_values_total:
  fixes now :: "'n::{minus,ord}"
  assumes "type d = ''data'' \<or> type d = ''date''"
    and "\<And>c. c \<in> set (codenames d) \<Longrightarrow> map_of (data d) c \<noteq> None"
    and "\<And>k. k \<in> fst ` set (data d) \<Longrightarrow> valid_utf8 k"
  shows "\<exists>r. all_values py now d command = Inr r"
proof -
  have cv: "valid_utf8 c" if "c \<in> set (codenames d)" for c
  proof -
    from assms(2)[OF that] have "c \<in> fst ` set (data d)"
      by (simp add: map_of_eq_None_iff)
    then show ?thesis by (rule assms(3))
  qed
  have a: "\<exists>r. for_each (old_or now d OLD_DATA (format_point py)) (codenames d) = Inr r"
    by (rule for_each_total) (simp add: old_or_total assms)
  have b: "\<exists>r. for_each (\<lambda>codename. old_or now d (codename @ '':'' @ OLD_DATA)
                   (\<lambda>point. codename @ '':'' @ format_point py point) codename)
                (codenames d) = Inr r"
    by (rule for_each_total) (simp add: old_or_total assms)
  from a obtain r1 where
    r1: "for_each (old_or now d OLD_DATA (format_point py)) (codenames d) = Inr r1" by blast
  from b obtain r3 where
    r3: "for_each (\<lambda>codename. old_or now d (codename @ '':'' @ OLD_DATA)
                   (\<lambda>point. codename @ '':'' @ format_point py point) codename)
                (codenames d) = Inr r3" by blast
  have j: "\<exists>r. (case for_each (old_or now d (JString OLD_DATA) tuple) (codenames d) of
                  Inl e \<Rightarrow> Inl e | Inr points \<Rightarrow> dumps py (JArray points)) = Inr r"
  proof -
    have "\<exists>r. for_each (old_or now d (JString OLD_DATA) tuple) (codenames d) = Inr r"
      by (rule for_each_total) (simp add: old_or_total assms)
    then obtain points where
      p: "for_each (old_or now d (JString OLD_DATA) tuple) (codenames d) = Inr points" by blast
    have "\<exists>t. dumps py x = Inr t" if "x \<in> set points" for x
    proof -
      from for_each_items[OF p that] obtain c where
        "old_or now d (JString OLD_DATA) tuple c = Inr x" by blast
      from dumps_point_or_old[OF old_or_cases[OF this]] show ?thesis .
    qed
    then have "\<exists>r. dumps py (JArray points) = Inr r" by (rule dumps_array_total)
    with p show ?thesis by simp
  qed
  have w: "\<exists>r. (case mark_old now d (codenames d)
                      (map (\<lambda>(k, point). (k, tuple point)) (data d)) of
                  Inl e \<Rightarrow> Inl e | Inr datacopy \<Rightarrow> dumps py (JObject datacopy)) = Inr r"
  proof -
    let ?copy = "map (\<lambda>(k, point). (k, tuple point)) (data d)"
    have "\<exists>r. mark_old now d (codenames d) ?copy = Inr r"
      by (rule mark_old_total) (simp_all add: assms)
    then obtain datacopy where m: "mark_old now d (codenames d) ?copy = Inr datacopy" by blast
    have "valid_utf8 k \<and> (\<exists>t. dumps py v = Inr t)" if "(k, v) \<in> set datacopy" for k v
    proof -
      from mark_old_items[OF m that]
      consider "(k, v) \<in> set ?copy" | "k \<in> set (codenames d)" "v = JString OLD_DATA" by blast
      then show ?thesis
      proof cases
        case 1
        then obtain point where kp: "(k, point) \<in> set (data d)" "v = tuple point" by auto
        from kp(1) have "k \<in> fst ` set (data d)" by force
        then have "valid_utf8 k" by (rule assms(3))
        moreover have "\<exists>t. dumps py v = Inr t"
          by (rule dumps_point_or_old) (use kp(2) in blast)
        ultimately show ?thesis by blast
      next
        case 2
        with cv dumps_OLD_DATA[of py] show ?thesis by auto
      qed
    qed
    then have "\<exists>r. dumps py (JObject datacopy) = Inr r" by (rule dumps_object_total)
    with m show ?thesis by simp
  qed
  have n: "\<exists>r. dumps py (JArray (map JString (codenames d))) = Inr r"
  proof (rule dumps_array_total)
    fix x :: "'n json"
    assume "x \<in> set (map JString (codenames d))"
    then obtain c where "c \<in> set (codenames d)" "x = JString c" by auto
    with cv encode_valid[of c] show "\<exists>t. dumps py x = Inr t" by auto
  qed
  show ?thesis
    using r1 r3 j w n by (simp add: all_values_def)
qed

lemma inv_points: "dataset_inv d \<Longrightarrow> c \<in> set (codenames d) \<Longrightarrow> map_of (data d) c \<noteq> None"
  by (auto simp: dataset_inv_def map_of_eq_None_iff)

text \<open>
  Claim C4. A command with exactly one \<open>#\<close> is answered by \<open>_single_value\<close>, which splits
  it into a name and a mode; every other command is answered by \<open>_all_values\<close>, which
  knows six commands and answers anything else with the value of \<open>UNKNOWN_COMMAND\<close>. None
  of the six has a \<open>#\<close>, so a command with two or more \<open>#\<close>, such as \<open>a#b#raw\<close>, is
  answered with that value whatever the entry holds.
\<close>

theorem handle_dispatch:
  fixes now :: "'n::{minus,ord}"
  shows "(count_list command CHR ''#'' = 1 \<longrightarrow>
            handle py now d command = single_value py now d command \<and>
            (\<exists>name mode. command = name @ ''#'' @ mode \<and>
                          split CHR ''#'' command = [name, mode])) \<and>
         (count_list command CHR ''#'' \<noteq> 1 \<longrightarrow>
            handle py now d command = all_values py now d command) \<and>
         (count_list command CHR ''#'' \<noteq> 1 \<and> command \<notin> set bulk_commands \<longrightarrow>
            handle py now d command = Inr UNKNOWN_COMMAND) \<and>
         (1 < count_list command CHR ''#'' \<longrightarrow>
            handle py now d command = Inr UNKNOWN_COMMAND) \<and>
         handle py now d ''a#b#raw'' = Inr UNKNOWN_COMMAND"
proof (intro conjI impI)
  assume one: "count_list command CHR ''#'' = 1"
  then show "handle py now d command = single_value py now d command"
    by (simp add: handle_def)
  from split_one[OF one]
  show "\<exists>name mode. command = name @ ''#'' @ mode \<and> split CHR ''#'' command = [name, mode]"
    by auto
next
  assume "count_list command CHR ''#'' \<noteq> 1"
  then show "handle py now d command = all_values py now d command"
    by (simp add: handle_def)
next
  assume "count_list command CHR ''#'' \<noteq> 1 \<and> command \<notin> set bulk_commands"
  then show "handle py now d command = Inr UNKNOWN_COMMAND"
    by (simp add: handle_def all_values_unknown)
next
  assume more: "1 < count_list command CHR ''#''"
  then have "command \<notin> set bulk_commands" using bulk_no_hash[of command] by auto
  with more show "handle py now d command = Inr UNKNOWN_COMMAND"
    by (simp add: handle_def all_values_unknown)
next
  show "handle py now d ''a#b#raw'' = Inr UNKNOWN_COMMAND"
    by (simp add: handle_def all_values_def)
qed

theorem handle_dispatch_witness:
  "count_list ''ex2#raw'' CHR ''#'' = 1 \<and>
   handle python_ints 1238 example_date ''ex2#raw'' = Inr ''1230,42'' \<and>
   split CHR ''#'' ''ex2#raw'' = [''ex2'', ''raw''] \<and>
   count_list ''raw'' CHR ''#'' \<noteq> 1 \<and>
   handle python_ints 1238 example_date ''raw'' = Inr ''OLD_DATA;1230,42'' \<and>
   1 < count_list ''ex2##raw'' CHR ''#'' \<and> ''ex2##raw'' \<notin> set bulk_commands \<and>
   handle python_ints 1238 example_date ''ex2##raw'' = Inr UNKNOWN_COMMAND"
proof -
  have s: "single_value python_ints 1238 example_date ''ex2#raw'' = Inr ''1230,42''"
    by code_simp
  have a: "all_values python_ints 1238 example_date ''raw'' = Inr ''OLD_DATA;1230,42''"
    by code_simp
  have b: "''ex2##raw'' \<notin> set bulk_commands" by (simp add: bulk_commands_def)
  have one: "count_list ''ex2#raw'' CHR ''#'' = 1" by simp
  have none: "count_list ''raw'' CHR ''#'' \<noteq> 1" by simp
  have two: "1 < count_list ''ex2##raw'' CHR ''#''" by simp
  have "handle python_ints 1238 example_date ''ex2#raw'' = Inr ''1230,42''"
    using handle_dispatch [where command = "''ex2#raw''" and py = python_ints and now = 1238
                             and d = example_date] one s by simp
  moreover have "handle python_ints 1238 example_date ''raw'' = Inr ''OLD_DATA;1230,42''"
    using handle_dispatch [where command = "''raw''" and py = python_ints and now = 1238
                             and d = example_date] none a by simp
  moreover have "handle python_ints 1238 example_date ''ex2##raw'' = Inr UNKNOWN_COMMAND"
    using handle_dispatch [where command = "''ex2##raw''" and py = python_ints and now = 1238
                             and d = example_date] two by blast
  moreover have "split CHR ''#'' ''ex2#raw'' = [''ex2'', ''raw'']" by simp
  ultimately show ?thesis using one none two b by blast
qed




subsection \<open>The constructors\<close>

lemma update_fresh: "k \<notin> fst ` set al \<Longrightarrow> AList.update k v al = al @ [(k, v)]"
  by (induction al) auto

lemma find_bad_None:
  "find (\<lambda>char. char \<in> set name) BAD_CHARS = None \<longleftrightarrow> (\<forall>char \<in> set BAD_CHARS. char \<notin> set name)"
  by (auto simp: find_None_iff)

lemma count_le_distinct: "(\<forall>name \<in> set names. \<not> 1 < count_list names name) \<longleftrightarrow> distinct names"
proof (induction names)
  case Nil
  then show ?case by simp
next
  case (Cons a names)
  have "(\<forall>name \<in> set (a # names). \<not> 1 < count_list (a # names) name) \<longleftrightarrow>
        count_list names a = 0 \<and> (\<forall>name \<in> set names. \<not> 1 < count_list names name)"
    by (auto simp: count_list_0_iff)
  with Cons show ?case by (simp add: count_list_0_iff)
qed

lemma init_data_ok:
  assumes "\<forall>name \<in> set rest. \<not> 1 < count_list names name"
    and "\<forall>name \<in> set rest. \<forall>char \<in> set BAD_CHARS. char \<notin> set name"
    and "distinct rest" and "set rest \<inter> fst ` set (data d) = {}"
  shows "init_data names point rest d =
           (Inr (), d\<lparr>data := data d @ map (\<lambda>name. (name, point)) rest\<rparr>)"
  using assms
proof (induction rest arbitrary: d)
  case Nil
  then show ?case by simp
next
  case (Cons name rest)
  have f: "find (\<lambda>char. char \<in> set name) BAD_CHARS = None"
    using Cons.prems(2) by (simp add: find_bad_None)
  have u: "AList.update name point (data d) = data d @ [(name, point)]"
    using Cons.prems(4) by (simp add: update_fresh)
  have "init_data names point rest (d\<lparr>data := data d @ [(name, point)]\<rparr>) =
        (Inr (), d\<lparr>data := data d @ [(name, point)]\<rparr>
                  \<lparr>data := data (d\<lparr>data := data d @ [(name, point)]\<rparr>) @ map (\<lambda>name. (name, point)) rest\<rparr>)"
    using Cons.prems by (intro Cons.IH) auto
  with f u Cons.prems(1) show ?case by simp
qed

lemma init_data_fails:
  assumes "\<exists>name \<in> set rest. 1 < count_list names name \<or> (\<exists>char \<in> set BAD_CHARS. char \<in> set name)"
  shows "\<exists>e d'. init_data names point rest d = (Inl e, d') \<and> e \<noteq> TimeoutsLength \<and> (\<forall>p. e \<noteq> PortExists p) \<and> e \<noteq> AddressInUse"
  using assms
proof (induction rest arbitrary: d)
  case Nil
  then show ?case by simp
next
  case (Cons name rest)
  show ?case
  proof (cases "1 < count_list names name")
    case True
    then show ?thesis by simp
  next
    case False
    show ?thesis
    proof (cases "find (\<lambda>char. char \<in> set name) BAD_CHARS")
      case None
      then have "\<forall>char \<in> set BAD_CHARS. char \<notin> set name" by (simp add: find_bad_None)
      with False Cons.prems have
        "\<exists>name \<in> set rest. 1 < count_list names name \<or> (\<exists>char \<in> set BAD_CHARS. char \<in> set name)"
        by auto
      from Cons.IH[OF this] None False show ?thesis by simp
    next
      case (Some c)
      with False show ?thesis by simp
    qed
  qed
qed

lemma init_date_ok:
  assumes "\<forall>name \<in> fst ` set kvs. \<not> 1 < count_list names name"
    and "\<forall>name \<in> fst ` set kvs. \<forall>char \<in> set BAD_CHARS. char \<notin> set name"
    and "distinct (map fst kvs)"
    and "fst ` set kvs \<inter> fst ` set (data d) = {}"
    and "fst ` set kvs \<inter> fst ` set (timeouts d) = {}"
  shows "init_date names point kvs d =
           (Inr (), d\<lparr>data := data d @ map (\<lambda>kv. (fst kv, point)) kvs,
                       timeouts := timeouts d @ kvs\<rparr>)"
  using assms
proof (induction kvs arbitrary: d)
  case Nil
  then show ?case by simp
next
  case (Cons kv kvs)
  obtain name timeout where kv: "kv = (name, timeout)" by (cases kv)
  let ?d = "d\<lparr>data := data d @ [(name, point)], timeouts := timeouts d @ [(name, timeout)]\<rparr>"
  have f: "find (\<lambda>char. char \<in> set name) BAD_CHARS = None"
    using Cons.prems(2) kv by (simp add: find_bad_None)
  have u: "AList.update name point (data d) = data d @ [(name, point)]"
    using Cons.prems(4) kv by (simp add: update_fresh)
  have v: "AList.update name timeout (timeouts d) = timeouts d @ [(name, timeout)]"
    using Cons.prems(5) kv by (simp add: update_fresh)
  have c: "\<not> 1 < count_list names name" using Cons.prems(1) kv by simp
  have "init_date names point kvs ?d =
        (Inr (), ?d\<lparr>data := data ?d @ map (\<lambda>kv. (fst kv, point)) kvs,
                     timeouts := timeouts ?d @ kvs\<rparr>)"
    using Cons.prems kv by (intro Cons.IH) auto
  with f u v c kv show ?case by simp
qed

lemma init_date_fails:
  assumes "\<exists>name \<in> fst ` set kvs.
             1 < count_list names name \<or> (\<exists>char \<in> set BAD_CHARS. char \<in> set name)"
  shows "\<exists>e d'. init_date names point kvs d = (Inl e, d') \<and> e \<noteq> TimeoutsLength \<and>
                (\<forall>p. e \<noteq> PortExists p) \<and> e \<noteq> AddressInUse"
  using assms
proof (induction kvs arbitrary: d)
  case Nil
  then show ?case by simp
next
  case (Cons kv kvs)
  obtain name timeout where kv: "kv = (name, timeout)" by (cases kv)
  show ?case
  proof (cases "1 < count_list names name")
    case True
    with kv show ?thesis by simp
  next
    case False
    show ?thesis
    proof (cases "find (\<lambda>char. char \<in> set name) BAD_CHARS")
      case None
      then have "\<forall>char \<in> set BAD_CHARS. char \<notin> set name" by (simp add: find_bad_None)
      with False Cons.prems kv have
        "\<exists>name \<in> fst ` set kvs.
           1 < count_list names name \<or> (\<exists>char \<in> set BAD_CHARS. char \<in> set name)"
        by auto
      from Cons.IH[OF this] None False kv show ?thesis by simp
    next
      case (Some c)
      with False kv show ?thesis by simp
    qed
  qed
qed

lemma valid_codenames_iff:
  "valid_codenames names \<longleftrightarrow>
     \<not> (\<exists>name \<in> set names.
           1 < count_list names name \<or> (\<exists>char \<in> set BAD_CHARS. char \<in> set name))"
  using count_le_distinct[of names] by (auto simp: valid_codenames_def)

lemma DataSocket_init_valid:
  assumes "valid_codenames names" "port \<notin> dom (DATA w)"
  shows "DataSocket_init names port x y w =
           UDPServer port (w\<lparr>DATA := (DATA w)(port \<mapsto> new_data names x y)\<rparr>)"
proof -
  have "init_data names (x, y) names
          \<lparr>type = ''data'', codenames = names, data = [], timeouts = []\<rparr> =
        (Inr (), new_data names x y)"
    using assms(1) count_le_distinct[of names]
    by (subst init_data_ok) (auto simp: valid_codenames_def new_data_def)
  with assms(2) show ?thesis by (simp add: DataSocket_init_def)
qed

lemma DataSocket_init_invalid:
  assumes "\<not> valid_codenames names" "port \<notin> dom (DATA w)"
  shows "\<exists>e d. DataSocket_init names port x y w = (Inl e, w\<lparr>DATA := (DATA w)(port \<mapsto> d)\<rparr>) \<and>
               e \<noteq> TimeoutsLength \<and> (\<forall>p. e \<noteq> PortExists p) \<and> e \<noteq> AddressInUse"
proof -
  from assms(1) have "\<exists>name \<in> set names.
      1 < count_list names name \<or> (\<exists>char \<in> set BAD_CHARS. char \<in> set name)"
    by (simp add: valid_codenames_iff)
  from init_data_fails[OF this, of "(x, y)"
         "\<lparr>type = ''data'', codenames = names, data = [], timeouts = []\<rparr>"]
  obtain e d' where i: "init_data names (x, y) names
          \<lparr>type = ''data'', codenames = names, data = [], timeouts = []\<rparr> = (Inl e, d')"
     and e: "e \<noteq> TimeoutsLength" "\<forall>p. e \<noteq> PortExists p" "e \<noteq> AddressInUse" by blast
  from i assms(2) have "DataSocket_init names port x y w =
      (Inl e, w\<lparr>DATA := (DATA w)(port \<mapsto> d')\<rparr>)"
    by (simp add: DataSocket_init_def)
  with e show ?thesis by blast
qed

lemma zip_fst_image: "length ts = length names \<Longrightarrow> fst ` set (zip names ts) = set names"
  by (induction ts names rule: list_induct2) auto

lemma zip_points:
  "length ts = length names \<Longrightarrow>
   map (\<lambda>kv. (fst kv, p)) (zip names ts) = map (\<lambda>name. (name, p)) names"
  by (induction ts names rule: list_induct2) auto

lemma convert_timeouts_length:
  "convert_timeouts names touts = Inr ts \<Longrightarrow> length ts = length names"
  by (auto simp: convert_timeouts_def split: timeouts_arg.splits if_splits)

lemma DateDataSocket_init_valid:
  assumes "valid_codenames names" "port \<notin> dom (DATA w)" "convert_timeouts names touts = Inr ts"
  shows "DateDataSocket_init names port x y touts w =
           UDPServer port (w\<lparr>DATA := (DATA w)(port \<mapsto> new_date names x y ts)\<rparr>)"
proof -
  have l: "length ts = length names" using assms(3) by (rule convert_timeouts_length)
  have m: "map fst (zip names ts) = names" using l by simp
  have s: "fst ` set (zip names ts) = set names" using l by (rule zip_fst_image)
  have d: "map (\<lambda>kv. (fst kv, (x, y))) (zip names ts) = map (\<lambda>name. (name, (x, y))) names"
    using l by (rule zip_points)
  have c: "\<forall>name \<in> set names. \<not> 1 < count_list names name"
    using assms(1) count_le_distinct[of names] by (simp add: valid_codenames_def)
  have "init_date names (x, y) (zip names ts)
          \<lparr>type = ''date'', codenames = names, data = [], timeouts = []\<rparr> =
        (Inr (), \<lparr>type = ''date'', codenames = names, data = [], timeouts = []\<rparr>
           \<lparr>data := [] @ map (\<lambda>kv. (fst kv, (x, y))) (zip names ts),
            timeouts := [] @ zip names ts\<rparr>)"
  proof (subst init_date_ok)
    show "\<forall>name\<in>fst ` set (zip names ts). \<not> 1 < count_list names name"
      unfolding s by (rule c)
    show "\<forall>name\<in>fst ` set (zip names ts). \<forall>char\<in>set BAD_CHARS. char \<notin> set name"
      unfolding s using assms(1) by (simp add: valid_codenames_def)
    show "distinct (map fst (zip names ts))"
      unfolding m using assms(1) by (simp add: valid_codenames_def)
  qed simp_all
  then have "init_date names (x, y) (zip names ts)
          \<lparr>type = ''date'', codenames = names, data = [], timeouts = []\<rparr> =
        (Inr (), new_date names x y ts)"
    by (simp add: d new_date_def)
  with assms(2,3) show ?thesis by (simp add: DateDataSocket_init_def)
qed

lemma DateDataSocket_init_invalid:
  assumes "\<not> valid_codenames names" "port \<notin> dom (DATA w)"
    "convert_timeouts names touts = Inr ts"
  shows "\<exists>e d. DateDataSocket_init names port x y touts w =
                 (Inl e, w\<lparr>DATA := (DATA w)(port \<mapsto> d)\<rparr>) \<and>
               e \<noteq> TimeoutsLength \<and> (\<forall>p. e \<noteq> PortExists p) \<and> e \<noteq> AddressInUse"
proof -
  have l: "length ts = length names" using assms(3) by (rule convert_timeouts_length)
  have s: "fst ` set (zip names ts) = set names" using l by (rule zip_fst_image)
  from assms(1) have "\<exists>name \<in> fst ` set (zip names ts).
      1 < count_list names name \<or> (\<exists>char \<in> set BAD_CHARS. char \<in> set name)"
    unfolding s by (simp add: valid_codenames_iff)
  from init_date_fails[OF this, of "(x, y)"
         "\<lparr>type = ''date'', codenames = names, data = [], timeouts = []\<rparr>"]
  obtain e d' where i: "init_date names (x, y) (zip names ts)
          \<lparr>type = ''date'', codenames = names, data = [], timeouts = []\<rparr> = (Inl e, d')"
     and e: "e \<noteq> TimeoutsLength" "\<forall>p. e \<noteq> PortExists p" "e \<noteq> AddressInUse" by blast
  from i assms(2,3) have "DateDataSocket_init names port x y touts w =
      (Inl e, w\<lparr>DATA := (DATA w)(port \<mapsto> d')\<rparr>)"
    by (simp add: DateDataSocket_init_def)
  with e show ?thesis by blast
qed
text \<open>
  Claim C2. The constructors register \<open>DATA[port]\<close> before they check the codenames, and
  raise from inside the loop without removing it. A \<open>DataSocket\<close> with the codename \<open>a\<close>
  twice is refused and leaves an entry on its port, so that the port is refused from then
  on as holding a server; a \<open>DateDataSocket\<close> with a \<open>#\<close> in its second codename leaves
  the entry with the first codename initialised.
\<close>

theorem failed_construction_leaves_entry:
  "fst (DataSocket_init [''a'', ''a''] 9000 47 47 empty_world) = Inl (DuplicateCodename ''a'') \<and>
   DATA (snd (DataSocket_init [''a'', ''a''] 9000 47 47 empty_world)) 9000 =
     Some \<lparr>type = ''data'', codenames = [''a'', ''a''], data = [], timeouts = []\<rparr> \<and>
   fst (DataSocket_init [''a''] 9000 47 47
          (snd (DataSocket_init [''a'', ''a''] 9000 47 47 empty_world))) = Inl (PortExists 9000) \<and>
   fst (DateDataSocket_init [''a'', ''b#''] 9001 0 47 (Single None) empty_world) =
     Inl (BadCharacter CHR ''#'') \<and>
   DATA (snd (DateDataSocket_init [''a'', ''b#''] 9001 0 47 (Single None) empty_world)) 9001 =
     Some \<lparr>type = ''date'', codenames = [''a'', ''b#''], data = [(''a'', (0, 47))],
           timeouts = [(''a'', None)]\<rparr>"
proof -
  have a: "DataSocket_init [''a'', ''a''] 9000 47 47 empty_world =
      (Inl (DuplicateCodename ''a''),
       empty_world\<lparr>DATA := (DATA empty_world)(9000 \<mapsto>
          \<lparr>type = ''data'', codenames = [''a'', ''a''], data = [], timeouts = []\<rparr>)\<rparr>)"
    by (simp add: DataSocket_init_def empty_world_def)
  have b: "DateDataSocket_init [''a'', ''b#''] 9001 0 47 (Single None) empty_world =
      (Inl (BadCharacter CHR ''#''),
       empty_world\<lparr>DATA := (DATA empty_world)(9001 \<mapsto>
          \<lparr>type = ''date'', codenames = [''a'', ''b#''], data = [(''a'', (0, 47))],
           timeouts = [(''a'', None)]\<rparr>)\<rparr>)"
    by (simp add: DateDataSocket_init_def convert_timeouts_def empty_world_def BAD_CHARS_def)
  show ?thesis
    unfolding a b by (simp add: DataSocket_init_def)
qed
lemma running_world_eq:
  "DataSocket_init [''ex1'', ''ex2''] 9000 47 47 empty_world =
     (Inr \<lparr>self_port = 9000, server = Constructed\<rparr>,
      \<lparr>DATA = [9000 \<mapsto> new_data [''ex1'', ''ex2''] 47 47], sockets = {9000}\<rparr>)"
proof -
  have v: "valid_codenames [''ex1'', ''ex2'']"
    by (simp add: valid_codenames_def BAD_CHARS_def)
  have p: "9000 \<notin> dom (DATA empty_world)" by (simp add: empty_world_def)
  show ?thesis
    unfolding DataSocket_init_valid[OF v p] by (simp add: UDPServer_def empty_world_def)
qed

lemma UDPServer_free:
  "port \<notin> sockets w \<Longrightarrow>
   UDPServer port w =
     (Inr \<lparr>self_port = port, server = Constructed\<rparr>, w\<lparr>sockets := insert port (sockets w)\<rparr>)"
  by (simp add: UDPServer_def)

lemma UDPServer_bound: "port \<in> sockets w \<Longrightarrow> UDPServer port w = (Inl AddressInUse, w)"
  by (simp add: UDPServer_def)

lemma UDPServer_error: "fst (UDPServer port w) = Inl e \<Longrightarrow> e = AddressInUse"
  by (auto simp: UDPServer_def split: if_splits)

text \<open>\<open>stop\<close> returns exactly when the loop of the server has been entered.\<close>

lemma stop_returns: "(\<exists>r. stop self w = Some r) \<longleftrightarrow> server self \<noteq> Constructed"
  by (cases "server self") (simp_all add: stop_def)

lemma stop_Inr:
  "stop self w = Some (Inr (), self', w') \<longleftrightarrow>
     server self \<noteq> Constructed \<and> self_port self \<in> dom (DATA w) \<and>
     self' = self\<lparr>server := Shut_down\<rparr> \<and> w' = w\<lparr>DATA := (DATA w)(self_port self := None)\<rparr>"
  by (cases "server self") (auto simp: stop_def)

lemma running_thread_eq: "running_thread = \<lparr>self_port = 9000, server = Serving\<rparr>"
  by (simp add: running_thread_def run_def)

text \<open>
  Claim C6, as stated, fails: after the \<open>stop\<close> of a running instance the entry of the
  port is gone, but the socket is still bound, and a \<open>DataSocket\<close> constructed on the same
  port at once is refused by the bind.
\<close>

theorem stop_keeps_socket:
  "DataSocket_init [''ex1'', ''ex2''] 9000 47 47 empty_world =
     (Inr \<lparr>self_port = 9000, server = Constructed\<rparr>, running_world) \<and>
   stop (run \<lparr>self_port = 9000, server = Constructed\<rparr>) running_world =
     Some (Inr (), \<lparr>self_port = 9000, server = Shut_down\<rparr>, stopped_world) \<and>
   DATA stopped_world 9000 = None \<and>
   9000 \<in> sockets stopped_world \<and>
   fst (DataSocket_init [''ex1'', ''ex2''] 9000 47 47 stopped_world) = Inl AddressInUse"
proof -
  have v: "valid_codenames [''ex1'', ''ex2'']"
    by (simp add: valid_codenames_def BAD_CHARS_def)
  have r: "running_world =
      \<lparr>DATA = [9000 \<mapsto> new_data [''ex1'', ''ex2''] 47 47], sockets = {9000}\<rparr>"
    by (simp add: running_world_def running_world_eq)
  have t: "stopped_world = \<lparr>DATA = Map.empty, sockets = {9000}\<rparr>"
    by (simp add: stopped_world_def r)
  have s: "stop (run \<lparr>self_port = 9000, server = Constructed\<rparr>) running_world =
      Some (Inr (), \<lparr>self_port = 9000, server = Shut_down\<rparr>, stopped_world)"
    by (simp add: stop_def run_def r t)
  have p: "9000 \<notin> dom (DATA stopped_world)" by (simp add: t)
  have "fst (DataSocket_init [''ex1'', ''ex2''] 9000 47 47 stopped_world) = Inl AddressInUse"
    unfolding DataSocket_init_valid[OF v p] by (simp add: t UDPServer_def)
  moreover have "DATA stopped_world 9000 = None \<and> 9000 \<in> sockets stopped_world"
    by (simp add: t)
  ultimately show ?thesis using s running_world_eq r by simp
qed

text \<open>
  Claim C6, amended. When \<open>stop\<close> returns without raising, as it does on an instance
  whose loop has been entered and whose port has an entry, that entry is removed and no
  other, and the bound sockets are as before: \<open>stop\<close> closes nothing. With the socket of
  the instance still bound, a constructor given valid codenames and the same port is
  refused by the bind.
\<close>

theorem stop_removes_entry:
  assumes "stop self w = Some (Inr (), self', w')"
  shows "server self \<noteq> Constructed \<and>
         DATA w' (self_port self) = None \<and>
         (\<forall>p. p \<noteq> self_port self \<longrightarrow> DATA w' p = DATA w p) \<and>
         sockets w' = sockets w \<and>
         (valid_codenames names \<and> self_port self \<in> sockets w \<longrightarrow>
            fst (DataSocket_init names (self_port self) x y w') = Inl AddressInUse \<and>
            fst (DateDataSocket_init names (self_port self) x y (Single t) w') =
              Inl AddressInUse)"
proof -
  let ?p = "self_port self"
  from assms have c: "server self \<noteq> Constructed"
    and w': "w' = w\<lparr>DATA := (DATA w)(?p := None)\<rparr>"
    by (simp_all add: stop_Inr)
  have free: "?p \<notin> dom (DATA w')" by (simp add: w')
  have ct: "convert_timeouts names (Single t) = Inr (replicate (length names) t)"
    by (simp add: convert_timeouts_def)
  have bound: "fst (DataSocket_init names ?p x y w') = Inl AddressInUse \<and>
      fst (DateDataSocket_init names ?p x y (Single t) w') = Inl AddressInUse"
    if v: "valid_codenames names" and b: "?p \<in> sockets w"
  proof -
    have "?p \<in> sockets (w'\<lparr>DATA := (DATA w')(?p \<mapsto> d)\<rparr>)" for d :: "'a dataset"
      using b by (simp add: w')
    then show ?thesis
      by (simp add: DataSocket_init_valid[OF v free] DateDataSocket_init_valid[OF v free ct]
            UDPServer_bound)
  qed
  show ?thesis using c bound by (simp add: w')
qed

theorem stop_removes_entry_witness:
  "stop running_thread running_world =
     Some (Inr (), \<lparr>self_port = 9000, server = Shut_down\<rparr>, stopped_world) \<and>
   valid_codenames [''ex1''] \<and> self_port running_thread \<in> sockets running_world \<and>
   DATA stopped_world (self_port running_thread) = None \<and>
   sockets stopped_world = sockets running_world \<and>
   fst (DataSocket_init [''ex1''] (self_port running_thread) 47 47 stopped_world) =
     Inl AddressInUse"
proof -
  have r: "running_world =
      \<lparr>DATA = [9000 \<mapsto> new_data [''ex1'', ''ex2''] 47 47], sockets = {9000}\<rparr>"
    by (simp add: running_world_def running_world_eq)
  have t: "stopped_world = \<lparr>DATA = Map.empty, sockets = {9000}\<rparr>"
    by (simp add: stopped_world_def r)
  have s: "stop running_thread running_world =
      Some (Inr (), \<lparr>self_port = 9000, server = Shut_down\<rparr>, stopped_world)"
    by (simp add: stop_def running_thread_eq r t)
  have v: "valid_codenames [''ex1'']" by (simp add: valid_codenames_def BAD_CHARS_def)
  have b: "self_port running_thread \<in> sockets running_world"
    by (simp add: r running_thread_eq)
  note T = stop_removes_entry [OF s, where names = "[''ex1'']" and x = 47 and y = 47
             and t = None]
  have "DATA stopped_world (self_port running_thread) = None" using T by blast
  moreover have "sockets stopped_world = sockets running_world" using T by blast
  moreover have "fst (DataSocket_init [''ex1''] (self_port running_thread) 47 47
                        stopped_world) = Inl AddressInUse"
    using T v b by blast
  ultimately show ?thesis using s v b by blast
qed

lemma map_of_zip_replicate:
  "name \<in> set names \<Longrightarrow> map_of (zip names (replicate (length names) t)) name = Some t"
  by (induction names) auto

lemma DateDataSocket_init_not_length:
  assumes "port \<notin> dom (DATA w)" "convert_timeouts names touts = Inr ts"
  shows "fst (DateDataSocket_init names port x y touts w) \<noteq> Inl TimeoutsLength"
proof (cases "valid_codenames names")
  case True
  show ?thesis
    unfolding DateDataSocket_init_valid[OF True assms]
    using UDPServer_error by fastforce
next
  case False
  from DateDataSocket_init_invalid[OF False assms, of x y] show ?thesis by auto
qed

text \<open>
  Claim C9. On a port without an entry, a \<open>DateDataSocket\<close> given a list of timeouts
  raises the error of the timeout list exactly when the list and the codenames differ in
  length, and leaves the process as it was; with valid codenames and a free socket this is
  the only way it fails, and a list of the right length becomes the \<open>timeouts\<close>
  dictionary, one timeout per codename in order. A single timeout never raises that
  error, and with valid codenames and a free socket every codename gets it.
\<close>

theorem timeouts_argument:
  assumes "port \<notin> dom (DATA w)"
  shows "(fst (DateDataSocket_init names port x y (Several ts) w) = Inl TimeoutsLength \<longleftrightarrow>
            length ts \<noteq> length names) \<and>
         (length ts \<noteq> length names \<longrightarrow>
            DateDataSocket_init names port x y (Several ts) w = (Inl TimeoutsLength, w)) \<and>
         (valid_codenames names \<and> port \<notin> sockets w \<longrightarrow>
            ((\<exists>e. fst (DateDataSocket_init names port x y (Several ts) w) = Inl e) \<longleftrightarrow>
             length ts \<noteq> length names)) \<and>
         (valid_codenames names \<and> port \<notin> sockets w \<and> length ts = length names \<longrightarrow>
            DateDataSocket_init names port x y (Several ts) w =
              (Inr \<lparr>self_port = port, server = Constructed\<rparr>,
               w\<lparr>DATA := (DATA w)(port \<mapsto> new_date names x y ts),
                 sockets := insert port (sockets w)\<rparr>) \<and>
            timeouts (new_date names x y ts) = zip names ts) \<and>
         fst (DateDataSocket_init names port x y (Single t) w) \<noteq> Inl TimeoutsLength \<and>
         (valid_codenames names \<and> port \<notin> sockets w \<longrightarrow>
            DateDataSocket_init names port x y (Single t) w =
              (Inr \<lparr>self_port = port, server = Constructed\<rparr>,
               w\<lparr>DATA := (DATA w)(port \<mapsto> new_date names x y (replicate (length names) t)),
                 sockets := insert port (sockets w)\<rparr>) \<and>
            (\<forall>name \<in> set names.
               map_of (timeouts (new_date names x y (replicate (length names) t))) name =
                 Some t))"
proof -
  have mismatch: "DateDataSocket_init names port x y (Several ts) w = (Inl TimeoutsLength, w)"
    if "length ts \<noteq> length names"
    using that assms by (simp add: DateDataSocket_init_def convert_timeouts_def)
  have several: "convert_timeouts names (Several ts) = Inr ts" if "length ts = length names"
    using that by (simp add: convert_timeouts_def)
  have single: "convert_timeouts names (Single t) = Inr (replicate (length names) t)"
    by (simp add: convert_timeouts_def)
  have match: "fst (DateDataSocket_init names port x y (Several ts) w) \<noteq> Inl TimeoutsLength"
    if "length ts = length names"
    by (rule DateDataSocket_init_not_length[OF assms several[OF that]])
  have ok: "DateDataSocket_init names port x y touts w =
              (Inr \<lparr>self_port = port, server = Constructed\<rparr>,
               w\<lparr>DATA := (DATA w)(port \<mapsto> new_date names x y ts'),
                 sockets := insert port (sockets w)\<rparr>)"
    if "valid_codenames names" "port \<notin> sockets w" "convert_timeouts names touts = Inr ts'"
    for touts ts'
    unfolding DateDataSocket_init_valid[OF that(1) assms that(3)]
    using that(2) by (simp add: UDPServer_def)
  have c1: "fst (DateDataSocket_init names port x y (Several ts) w) = Inl TimeoutsLength \<longleftrightarrow>
            length ts \<noteq> length names"
    using mismatch match by (cases "length ts = length names") simp_all
  have c3: "(\<exists>e. fst (DateDataSocket_init names port x y (Several ts) w) = Inl e) \<longleftrightarrow>
             length ts \<noteq> length names"
    if "valid_codenames names" "port \<notin> sockets w"
  proof (cases "length ts = length names")
    case True
    from ok[OF that several[OF True]] True show ?thesis by simp
  next
    case False
    with mismatch show ?thesis by simp
  qed
  have c4: "DateDataSocket_init names port x y (Several ts) w =
              (Inr \<lparr>self_port = port, server = Constructed\<rparr>,
               w\<lparr>DATA := (DATA w)(port \<mapsto> new_date names x y ts),
                 sockets := insert port (sockets w)\<rparr>) \<and>
            timeouts (new_date names x y ts) = zip names ts"
    if "valid_codenames names" "port \<notin> sockets w" "length ts = length names"
    using ok[OF that(1,2) several[OF that(3)]] by (simp add: new_date_def)
  have c5: "fst (DateDataSocket_init names port x y (Single t) w) \<noteq> Inl TimeoutsLength"
    by (rule DateDataSocket_init_not_length[OF assms single])
  have c6: "DateDataSocket_init names port x y (Single t) w =
              (Inr \<lparr>self_port = port, server = Constructed\<rparr>,
               w\<lparr>DATA := (DATA w)(port \<mapsto> new_date names x y (replicate (length names) t)),
                 sockets := insert port (sockets w)\<rparr>) \<and>
            (\<forall>name \<in> set names.
               map_of (timeouts (new_date names x y (replicate (length names) t))) name =
                 Some t)"
    if "valid_codenames names" "port \<notin> sockets w"
    using ok[OF that single] by (simp add: new_date_def map_of_zip_replicate)
  show ?thesis
    using c1 mismatch c3 c4 c5 c6 by blast
qed

theorem timeouts_argument_witness:
  "9000 \<notin> dom (DATA empty_world) \<and> valid_codenames [''a'', ''b''] \<and>
   9000 \<notin> sockets empty_world \<and>
   fst (DateDataSocket_init [''a'', ''b''] 9000 0 47 (Several [Some 5]) empty_world) =
     Inl TimeoutsLength \<and>
   fst (DateDataSocket_init [''a'', ''b''] 9000 0 47 (Several [Some 5, None]) empty_world) =
     Inr \<lparr>self_port = 9000, server = Constructed\<rparr> \<and>
   fst (DateDataSocket_init [''a'', ''b''] 9000 0 47 (Single (Some 5)) empty_world) =
     Inr \<lparr>self_port = 9000, server = Constructed\<rparr> \<and>
   map_of (timeouts (new_date [''a'', ''b''] 0 47 (replicate (length [''a'', ''b'']) (Some 5))))
     ''b'' = Some (Some (5::int))"
proof -
  have p: "9000 \<notin> dom (DATA empty_world)" by (simp add: empty_world_def)
  have v: "valid_codenames [''a'', ''b'']" by (simp add: valid_codenames_def BAD_CHARS_def)
  have s: "9000 \<notin> sockets empty_world" by (simp add: empty_world_def)
  have l1: "length [Some (5::int)] \<noteq> length [''a'', ''b'']" by simp
  have l2: "length [Some (5::int), None] = length [''a'', ''b'']" by simp
  have b: "''b'' \<in> set [''a'', ''b'']" by simp
  note T = timeouts_argument [OF p, where names = "[''a'', ''b'']" and x = 0 and y = 47
             and t = "Some 5"]
  have "fst (DateDataSocket_init [''a'', ''b''] 9000 0 47 (Several [Some 5]) empty_world) =
     Inl TimeoutsLength"
    using T [where ts = "[Some 5]"] l1 by blast
  moreover have
    "fst (DateDataSocket_init [''a'', ''b''] 9000 0 47 (Several [Some 5, None]) empty_world) =
     Inr \<lparr>self_port = 9000, server = Constructed\<rparr>"
    using T [where ts = "[Some 5, None]"] l2 v s by simp
  moreover have
    "fst (DateDataSocket_init [''a'', ''b''] 9000 0 47 (Single (Some 5)) empty_world) =
     Inr \<lparr>self_port = 9000, server = Constructed\<rparr>"
    using T [where ts = "[]"] v s by simp
  moreover have
    "map_of (timeouts (new_date [''a'', ''b''] 0 47 (replicate (length [''a'', ''b'']) (Some 5))))
       ''b'' = Some (Some (5::int))"
    using T [where ts = "[]"] v s b by blast
  ultimately show ?thesis using p v s by blast
qed

subsection \<open>Setting points\<close>

lemma set_point_entry:
  "DATA w (self_port self) = Some d \<Longrightarrow>
   set_point self codename point w =
     (Inr (), w\<lparr>DATA := (DATA w)(self_port self \<mapsto>
                 d\<lparr>data := AList.update codename point (data d)\<rparr>)\<rparr>)"
  by (simp add: set_point_def)

lemma set_point_inv:
  "dataset_inv d \<Longrightarrow> dataset_inv (d\<lparr>data := AList.update codename point (data d)\<rparr>)"
  by (auto simp: dataset_inv_def AList.distinct_update AList.dom_update)

lemma inv_no_hash:
  assumes "dataset_inv d" "name \<in> set (codenames d)"
  shows "CHR ''#'' \<notin> set name"
  using assms by (auto simp: dataset_inv_def BAD_CHARS_def)

lemma for_each_cong:
  "(\<And>x. x \<in> set xs \<Longrightarrow> f x = g x) \<Longrightarrow> for_each f xs = for_each g xs"
  by (induction xs) (auto cong: sum.case_cong)

lemma old_data_update:
  fixes now :: "'n::{minus,ord}"
  assumes "c \<noteq> codename"
  shows "old_data now (d\<lparr>data := AList.update codename point (data d)\<rparr>) c = old_data now d c"
  using assms by (simp add: old_data_def getitem_def AList.update_conv' cong: option.case_cong)

lemma old_or_update:
  fixes now :: "'n::{minus,ord}"
  assumes "c \<noteq> codename"
  shows "old_or now (d\<lparr>data := AList.update codename point (data d)\<rparr>) old fresh c =
         old_or now d old fresh c"
  using assms
  by (simp add: old_or_def old_data_update getitem_def AList.update_conv'
        cong: sum.case_cong bool.case_cong)

lemma mark_old_update:
  fixes now :: "'n::{minus,ord}"
  assumes "codename \<notin> set cs"
  shows "mark_old now (d\<lparr>data := AList.update codename point (data d)\<rparr>) cs datacopy =
         mark_old now d cs datacopy"
  using assms
proof (induction cs arbitrary: datacopy)
  case Nil
  then show ?case by simp
next
  case (Cons c cs)
  then have "old_data now (d\<lparr>data := AList.update codename point (data d)\<rparr>) c =
             old_data now d c"
    by (intro old_data_update) auto
  with Cons show ?case by (simp cong: sum.case_cong bool.case_cong)
qed

lemma mark_old_other:
  fixes now :: "'n::{minus,ord}"
  assumes "mark_old now d cs datacopy = Inr r" "c \<notin> set cs"
  shows "map_of r c = map_of datacopy c"
  using assms
proof (induction cs arbitrary: datacopy)
  case Nil
  then show ?case by simp
next
  case (Cons a cs)
  from Cons.prems(1) obtain b where b: "old_data now d a = Inr b"
    by (cases "old_data now d a") auto
  show ?case
  proof (cases b)
    case True
    with b Cons.prems have "mark_old now d cs (AList.update a (JString OLD_DATA) datacopy) = Inr r"
      by simp
    from Cons.IH[OF this] Cons.prems(2) show ?thesis by (simp add: AList.update_conv')
  next
    case False
    with b Cons.prems have "mark_old now d cs datacopy = Inr r" by simp
    from Cons.IH[OF this] Cons.prems(2) show ?thesis by simp
  qed
qed

lemma join_contains: "x \<in> set xs \<Longrightarrow> \<exists>pre post. join sep xs = pre @ x @ post"
proof (induction sep xs rule: join.induct)
  case (1 sep)
  then show ?case by simp
next
  case (2 sep x')
  then have "join sep [x'] = [] @ x @ []" by simp
  then show ?case by blast
next
  case (3 sep a b ys)
  show ?case
  proof (cases "x = a")
    case True
    then have "join sep (a # b # ys) = [] @ x @ (sep @ join sep (b # ys))" by simp
    then show ?thesis by blast
  next
    case False
    with 3 obtain pre post where "join sep (b # ys) = pre @ x @ post" by auto
    then have "join sep (a # b # ys) = (a @ sep @ pre) @ x @ post" by simp
    then show ?thesis by blast
  qed
qed

lemma copy_lookup:
  "map_of (map (\<lambda>(k, point). (k, tuple point)) al) k = map_option tuple (map_of al k)"
  by (induction al) auto
lemma single_value_fresh:
  fixes now :: "'n::{minus,ord}"
  assumes "CHR ''#'' \<notin> set name" "map_of (data d) name = Some point"
    "old_data now d name = Inr False"
  shows "handle py now d (name @ ''#raw'') = Inr (format_point py point)"
    and "handle py now d (name @ ''#json'') = dumps py (tuple point)"
proof -
  have r: "split CHR ''#'' (name @ ''#raw'') = [name, ''raw'']"
    using single_value_split[of name "''raw''"] assms(1) by simp
  have j: "split CHR ''#'' (name @ ''#json'') = [name, ''json'']"
    using single_value_split[of name "''json''"] assms(1) by simp
  have cr: "count_list (name @ ''#raw'') CHR ''#'' = 1"
    using length_split[of "CHR ''#''" "name @ ''#raw''"] unfolding r by simp
  have cj: "count_list (name @ ''#json'') CHR ''#'' = 1"
    using length_split[of "CHR ''#''" "name @ ''#json''"] unfolding j by simp
  have o: "old_or now d OLD_DATA (format_point py) name = Inr (format_point py point)"
    "old_or now d (JString OLD_DATA) tuple name = Inr (tuple point)"
    using assms(2,3) by (simp_all add: old_or_def getitem_def)
  have "handle py now d (name @ ''#raw'') = single_value py now d (name @ ''#raw'')"
    by (simp only: handle_def cr) simp
  also have "\<dots> = Inr (format_point py point)"
    using assms(2) o by (simp add: single_value_def r)
  finally show "handle py now d (name @ ''#raw'') = Inr (format_point py point)" .
  have "handle py now d (name @ ''#json'') = single_value py now d (name @ ''#json'')"
    by (simp only: handle_def cj) simp
  also have "\<dots> = dumps py (tuple point)"
    using assms(2) o by (simp add: single_value_def j)
  finally show "handle py now d (name @ ''#json'') = dumps py (tuple point)" .
qed
text \<open>
  Claim C7. On an entry that satisfies the invariants, \<open>set_point\<close> of a declared
  codename \<open>name\<close> to the point \<open>(x, y)\<close> succeeds, and unless the new point is judged
  old (it never is in an entry of type \<open>'data'\<close>) the command \<open>name#raw\<close> is answered
  with the two numbers as \<open>'{},{}'.format\<close> prints them and \<open>name#json\<close> with the array
  of the two numbers as \<open>json.dumps\<close> prints them: \<open>3.0,4.0\<close> and \<open>[3.0, 4.0]\<close> for
  numbers printed as \<open>3.0\<close> and \<open>4.0\<close>.
\<close>
theorem set_point_round_trip:
  fixes now :: "'n::{minus,ord}"
  assumes "DATA w (self_port self) = Some d" and "dataset_inv d"
    and "name \<in> set (codenames d)"
  shows "fst (set_point self name (x, y) w) = Inr () \<and>
         (\<exists>d'. DATA (snd (set_point self name (x, y) w)) (self_port self) = Some d' \<and>
               (type d = ''data'' \<longrightarrow> old_data now d' name = Inr False) \<and>
               (old_data now d' name = Inr False \<longrightarrow>
                  handle py now d' (name @ ''#raw'') = Inr (str py x @ '','' @ str py y) \<and>
                  handle py now d' (name @ ''#json'') =
                    Inr (''['' @ repr py x @ '', '' @ repr py y @ '']'') \<and>
                  (str py x = ''3.0'' \<and> str py y = ''4.0'' \<longrightarrow>
                     handle py now d' (name @ ''#raw'') = Inr ''3.0,4.0'') \<and>
                  (repr py x = ''3.0'' \<and> repr py y = ''4.0'' \<longrightarrow>
                     handle py now d' (name @ ''#json'') = Inr ''[3.0, 4.0]'')))"
proof -
  let ?d = "d\<lparr>data := AList.update name (x, y) (data d)\<rparr>"
  have s: "set_point self name (x, y) w =
      (Inr (), w\<lparr>DATA := (DATA w)(self_port self \<mapsto> ?d)\<rparr>)"
    using assms(1) by (rule set_point_entry)
  have nh: "CHR ''#'' \<notin> set name" using assms(2,3) by (rule inv_no_hash)
  have m: "map_of (data ?d) name = Some (x, y)" by (simp add: AList.update_conv')
  have f: "format_point py (x, y) = str py x @ '','' @ str py y"
    by (simp add: format_point_def)
  have t: "dumps py (tuple (x, y)) = Inr (''['' @ repr py x @ '', '' @ repr py y @ '']'')"
    by (rule dumps_tuple)
  have plain: "old_data now ?d name = Inr False" if "type d = ''data''"
    using that by (simp add: old_data_def)
  have fresh: "handle py now ?d (name @ ''#raw'') = Inr (str py x @ '','' @ str py y) \<and>
               handle py now ?d (name @ ''#json'') =
                 Inr (''['' @ repr py x @ '', '' @ repr py y @ '']'')"
    if "old_data now ?d name = Inr False"
    using single_value_fresh[OF nh m that, of py] by (simp only: f t)
  have three: "handle py now ?d (name @ ''#raw'') = Inr ''3.0,4.0''"
    if "old_data now ?d name = Inr False" "str py x = ''3.0'' \<and> str py y = ''4.0''"
    using fresh[OF that(1)] that(2) by simp
  have four: "handle py now ?d (name @ ''#json'') = Inr ''[3.0, 4.0]''"
    if "old_data now ?d name = Inr False" "repr py x = ''3.0'' \<and> repr py y = ''4.0''"
    using fresh[OF that(1)] that(2) by simp
  have "DATA (snd (set_point self name (x, y) w)) (self_port self) = Some ?d"
    by (simp add: s)
  moreover have "fst (set_point self name (x, y) w) = Inr ()" by (simp add: s)
  ultimately show ?thesis using plain fresh three four by blast
qed
theorem set_point_round_trip_witness:
  "DATA running_world (self_port running_thread) = Some (new_data [''ex1'', ''ex2''] 47 47) \<and>
   dataset_inv (new_data [''ex1'', ''ex2''] 47 47 :: int dataset) \<and>
   ''ex1'' \<in> set (codenames (new_data [''ex1'', ''ex2''] 47 47 :: int dataset)) \<and>
   str whole_floats 3 = ''3.0'' \<and> str whole_floats 4 = ''4.0'' \<and>
   repr whole_floats 3 = ''3.0'' \<and> repr whole_floats 4 = ''4.0'' \<and>
   (\<exists>d'. DATA (snd (set_point running_thread ''ex1'' (3, 4) running_world))
           (self_port running_thread) = Some d' \<and>
         handle whole_floats 1238 d' ''ex1#raw'' = Inr ''3.0,4.0'' \<and>
         handle whole_floats 1238 d' ''ex1#json'' = Inr ''[3.0, 4.0]'')"
proof -
  have r: "running_world =
      \<lparr>DATA = [9000 \<mapsto> new_data [''ex1'', ''ex2''] 47 47], sockets = {9000}\<rparr>"
    by (simp add: running_world_def running_world_eq)
  have e: "DATA running_world (self_port running_thread) =
      Some (new_data [''ex1'', ''ex2''] 47 47)"
    by (simp add: r running_thread_eq)
  have i: "dataset_inv (new_data [''ex1'', ''ex2''] 47 47 :: int dataset)"
    by (simp add: dataset_inv_def new_data_def BAD_CHARS_def)
  have c: "''ex1'' \<in> set (codenames (new_data [''ex1'', ''ex2''] 47 47 :: int dataset))"
    by (simp add: new_data_def)
  have t: "type (new_data [''ex1'', ''ex2''] 47 47 :: int dataset) = ''data''"
    by (simp add: new_data_def)
  have p: "str whole_floats 3 = ''3.0'' \<and> str whole_floats 4 = ''4.0''"
    by (simp add: whole_floats_def str_int_def digits.simps)
  have q: "repr whole_floats 3 = ''3.0'' \<and> repr whole_floats 4 = ''4.0''"
    by (simp add: whole_floats_def str_int_def digits.simps)
  have "\<exists>d'. DATA (snd (set_point running_thread ''ex1'' (3, 4) running_world))
           (self_port running_thread) = Some d' \<and>
         handle whole_floats 1238 d' ''ex1#raw'' = Inr ''3.0,4.0'' \<and>
         handle whole_floats 1238 d' ''ex1#json'' = Inr ''[3.0, 4.0]''"
    using set_point_round_trip [OF e i c, where x = 3 and y = 4 and py = whole_floats
                                  and now = 1238] t p q
    by auto
  then show ?thesis using e i c p q by blast
qed

subsection \<open>The codenames\<close>

lemma DataSocket_init_Inr:
  assumes "DataSocket_init names port x y w = (Inr self, w1)"
  shows "self = \<lparr>self_port = port, server = Constructed\<rparr> \<and>
         w1 = w\<lparr>DATA := (DATA w)(port \<mapsto> new_data names x y),
                sockets := insert port (sockets w)\<rparr>"
proof -
  have p: "port \<notin> dom (DATA w)"
    using assms by (auto simp: DataSocket_init_def split: if_splits)
  have v: "valid_codenames names"
  proof (rule ccontr)
    assume "\<not> valid_codenames names"
    from DataSocket_init_invalid[OF this p, of x y] assms show False by auto
  qed
  from assms show ?thesis
    unfolding DataSocket_init_valid[OF v p]
    by (auto simp: UDPServer_def split: if_splits)
qed

lemma DateDataSocket_init_Inr:
  assumes "DateDataSocket_init names port x y touts w = (Inr self, w1)"
  shows "\<exists>ts. self = \<lparr>self_port = port, server = Constructed\<rparr> \<and>
         w1 = w\<lparr>DATA := (DATA w)(port \<mapsto> new_date names x y ts),
                sockets := insert port (sockets w)\<rparr>"
proof -
  have p: "port \<notin> dom (DATA w)"
    using assms by (auto simp: DateDataSocket_init_def split: if_splits)
  obtain ts where c: "convert_timeouts names touts = Inr ts"
    using assms p by (cases "convert_timeouts names touts") (auto simp: DateDataSocket_init_def)
  have v: "valid_codenames names"
  proof (rule ccontr)
    assume "\<not> valid_codenames names"
    from DateDataSocket_init_invalid[OF this p c, of x y] assms show False by auto
  qed
  from assms have "self = \<lparr>self_port = port, server = Constructed\<rparr> \<and>
         w1 = w\<lparr>DATA := (DATA w)(port \<mapsto> new_date names x y ts),
                sockets := insert port (sockets w)\<rparr>"
    unfolding DateDataSocket_init_valid[OF v p c]
    by (auto simp: UDPServer_def split: if_splits)
  then show ?thesis by blast
qed

lemma set_point_codenames:
  assumes "DATA w port = Some d"
  shows "\<exists>d'. DATA (snd (set_point self codename point w)) port = Some d' \<and>
              codenames d' = codenames d"
  using assms by (cases "DATA w (self_port self)") (auto simp: set_point_def)

lemma set_points_codenames:
  assumes "DATA w port = Some d"
  shows "\<exists>d'. DATA (set_points self ops w) port = Some d' \<and> codenames d' = codenames d"
  using assms
proof (induction ops arbitrary: w d)
  case Nil
  then show ?case by simp
next
  case (Cons op ops)
  obtain codename point where op: "op = (codename, point)" by (cases op)
  from set_point_codenames[OF Cons.prems, of self codename point]
  obtain d1 where d1: "DATA (snd (set_point self codename point w)) port = Some d1"
    "codenames d1 = codenames d" by blast
  from Cons.IH[OF d1(1)] d1(2) op show ?case by simp
qed

lemma for_each_map: "for_each f xs = Inr ys \<Longrightarrow> map f xs = map Inr ys"
proof (induction xs arbitrary: ys)
  case Nil
  then show ?case by simp
next
  case (Cons a xs)
  from Cons.prems obtain b bs where "f a = Inr b" "for_each f xs = Inr bs" "ys = b # bs"
    by (auto split: sum.splits)
  with Cons.IH show ?case by simp
qed

lemma codenames_replies:
  fixes now :: "'n::{minus,ord}"
  shows "handle py now d ''codenames_raw'' = Inr (join '','' (codenames d))"
    and "handle py now d ''codenames_json'' =
           (case for_each encode_basestring_ascii (codenames d) of
              Inl e \<Rightarrow> Inl e
            | Inr quoted \<Rightarrow> Inr (''['' @ join '', '' quoted @ '']''))"
proof -
  show "handle py now d ''codenames_raw'' = Inr (join '','' (codenames d))"
    by (simp add: handle_def all_values_def)
  have "map (dumps py) (map JString (codenames d)) =
        map encode_basestring_ascii (codenames d)"
    by simp
  then have "sequence (map (dumps py) (map JString (codenames d))) =
             for_each encode_basestring_ascii (codenames d)"
    by (simp only: sequence_map)
  then show "handle py now d ''codenames_json'' =
           (case for_each encode_basestring_ascii (codenames d) of
              Inl e \<Rightarrow> Inl e
            | Inr quoted \<Rightarrow> Inr (''['' @ join '', '' quoted @ '']''))"
    by (simp add: handle_def all_values_def)
qed

text \<open>
  Claim C8, as stated, fails: \<open>DataSocket(['\xff'])\<close> is constructed, its codename passes
  the checks of the constructor, and \<open>codenames_json\<close> is not answered with an array:
  \<open>json.dumps\<close> raises on the codename. \<open>codenames_raw\<close> is answered with the codename.
\<close>

theorem undecodable_codenames_json:
  "DataSocket_init [[CHR 0xFF]] 9000 47 47 empty_world =
     (Inr \<lparr>self_port = 9000, server = Constructed\<rparr>,
      \<lparr>DATA = [9000 \<mapsto> new_data [[CHR 0xFF]] 47 47], sockets = {9000}\<rparr>) \<and>
   handle python_ints 1238 (new_data [[CHR 0xFF]] 47 47) ''codenames_json'' =
     Inl UnicodeDecodeError \<and>
   handle python_ints 1238 (new_data [[CHR 0xFF]] 47 47) ''codenames_raw'' = Inr [CHR 0xFF]"
proof -
  have v: "valid_codenames [[CHR 0xFF]]"
    by (simp add: valid_codenames_def BAD_CHARS_def)
  have p: "9000 \<notin> dom (DATA empty_world)" by (simp add: empty_world_def)
  have "DataSocket_init [[CHR 0xFF]] 9000 47 47 empty_world =
     (Inr \<lparr>self_port = 9000, server = Constructed\<rparr>,
      \<lparr>DATA = [9000 \<mapsto> new_data [[CHR 0xFF]] 47 47], sockets = {9000}\<rparr>)"
    unfolding DataSocket_init_valid[OF v p] by (simp add: UDPServer_def empty_world_def)
  moreover have "handle python_ints 1238 (new_data [[CHR 0xFF]] 47 47) ''codenames_json'' =
     Inl UnicodeDecodeError"
    by (simp add: handle_def all_values_def new_data_def encode_basestring_ascii_def)
  moreover have
    "handle python_ints 1238 (new_data [[CHR 0xFF]] 47 47) ''codenames_raw'' = Inr [CHR 0xFF]"
    by (simp add: handle_def all_values_def new_data_def)
  ultimately show ?thesis by simp
qed

text \<open>
  Claim C8, amended. After either constructor has succeeded on the codenames \<open>names\<close>, and
  after any run of \<open>set_point\<close> calls of the instance (the handler itself changes nothing),
  the entry of the port still holds \<open>names\<close>, and \<open>codenames_raw\<close> is answered with the
  codenames joined by a comma, in the order of the constructor's argument. When every
  codename decodes as UTF-8, as every ASCII codename does, \<open>codenames_json\<close> is answered
  with the JSON array of the quoted codenames in that order; otherwise it raises.
\<close>

theorem codenames_order:
  fixes now :: "'n::{minus,ord}"
  assumes "DataSocket_init names port x y w = (Inr self, w1) \<or>
           DateDataSocket_init names port x y touts w = (Inr self, w1)"
  shows "self_port self = port \<and>
         (\<exists>d. DATA (set_points self ops w1) port = Some d \<and>
              codenames d = names \<and>
              handle py now d ''codenames_raw'' = Inr (join '','' names) \<and>
              ((\<forall>name \<in> set names. valid_utf8 name) \<longrightarrow>
                 (\<exists>quoted. map encode_basestring_ascii names = map Inr quoted \<and>
                    handle py now d ''codenames_json'' =
                      Inr (''['' @ join '', '' quoted @ '']''))) \<and>
              (\<not> (\<forall>name \<in> set names. valid_utf8 name) \<longrightarrow>
                 handle py now d ''codenames_json'' = Inl UnicodeDecodeError))"
proof -
  have "self_port self = port \<and> (\<exists>d0. DATA w1 port = Some d0 \<and> codenames d0 = names)"
    using assms
  proof
    assume "DataSocket_init names port x y w = (Inr self, w1)"
    from DataSocket_init_Inr[OF this] show ?thesis by (simp add: new_data_def)
  next
    assume "DateDataSocket_init names port x y touts w = (Inr self, w1)"
    from DateDataSocket_init_Inr[OF this] show ?thesis by (auto simp: new_date_def)
  qed
  then obtain d0 where p: "self_port self = port" and d0: "DATA w1 port = Some d0"
    "codenames d0 = names" by blast
  from set_points_codenames[OF d0(1), of self ops] d0(2)
  obtain d where d: "DATA (set_points self ops w1) port = Some d" "codenames d = names"
    by auto
  have raw: "handle py now d ''codenames_raw'' = Inr (join '','' names)"
    using codenames_replies(1)[of py now d] d(2) by simp
  have js: "handle py now d ''codenames_json'' =
           (case for_each encode_basestring_ascii names of
              Inl e \<Rightarrow> Inl e
            | Inr quoted \<Rightarrow> Inr (''['' @ join '', '' quoted @ '']''))"
    using codenames_replies(2)[of py now d] d(2) by simp
  have ok: "\<exists>quoted. map encode_basestring_ascii names = map Inr quoted \<and>
              handle py now d ''codenames_json'' = Inr (''['' @ join '', '' quoted @ '']'')"
    if "\<forall>name \<in> set names. valid_utf8 name"
  proof -
    have "\<exists>quoted. for_each encode_basestring_ascii names = Inr quoted"
      by (rule for_each_total) (use that encode_valid in blast)
    then obtain quoted where q: "for_each encode_basestring_ascii names = Inr quoted" by blast
    from for_each_map[OF q] js q show ?thesis by simp
  qed
  have bad: "handle py now d ''codenames_json'' = Inl UnicodeDecodeError"
    if "\<not> (\<forall>name \<in> set names. valid_utf8 name)"
  proof -
    from that obtain name where n: "name \<in> set names" "\<not> valid_utf8 name" by blast
    have "for_each encode_basestring_ascii names = Inl UnicodeDecodeError"
      by (rule for_each_fails[where f = encode_basestring_ascii and x = name])
         (use n encode_invalid encode_error in blast)+
    with js show ?thesis by simp
  qed
  show ?thesis using p d raw ok bad by blast
qed

theorem codenames_order_witness:
  "DataSocket_init [''ex1'', ''ex2''] 9000 47 47 empty_world =
     (Inr \<lparr>self_port = 9000, server = Constructed\<rparr>,
      \<lparr>DATA = [9000 \<mapsto> new_data [''ex1'', ''ex2''] 47 47], sockets = {9000}\<rparr>) \<and>
   valid_utf8 ''ex1'' \<and> valid_utf8 ''ex2'' \<and>
   (\<exists>d. DATA (set_points \<lparr>self_port = 9000, server = Constructed\<rparr>
               [(''ex2'', (1, 2)), (''ex0'', (3, 4))]
               \<lparr>DATA = [9000 \<mapsto> new_data [''ex1'', ''ex2''] 47 47], sockets = {9000}\<rparr>) 9000 =
          Some d \<and>
        handle python_ints 1238 d ''codenames_raw'' = Inr ''ex1,ex2'' \<and>
        handle python_ints 1238 d ''codenames_json'' = Inr ''[\"ex1\", \"ex2\"]'')"
proof -
  have j: "join '','' [''ex1'', ''ex2''] = ''ex1,ex2''" by simp
  have u: "valid_utf8 ''ex1'' \<and> valid_utf8 ''ex2''" by (simp add: valid_utf8_def)
  then have a: "\<forall>name \<in> set [''ex1'', ''ex2'']. valid_utf8 name" by simp
  have e: "map encode_basestring_ascii [''ex1'', ''ex2''] = map Inr [''\"ex1\"'', ''\"ex2\"'']"
    by (simp add: encode_basestring_ascii_def quote_def escape_def char_of_eq_iff)
  from codenames_order [OF disjI1, OF running_world_eq,
            where ops = "[(''ex2'', (1, 2)), (''ex0'', (3, 4))]" and py = python_ints
              and now = 1238] a
  obtain d quoted where d:
    "DATA (set_points \<lparr>self_port = 9000, server = Constructed\<rparr>
               [(''ex2'', (1, 2)), (''ex0'', (3, 4))]
               \<lparr>DATA = [9000 \<mapsto> new_data [''ex1'', ''ex2''] 47 47], sockets = {9000}\<rparr>) 9000 =
          Some d"
    "handle python_ints 1238 d ''codenames_raw'' = Inr (join '','' [''ex1'', ''ex2''])"
    "map encode_basestring_ascii [''ex1'', ''ex2''] = map Inr quoted"
    "handle python_ints 1238 d ''codenames_json'' = Inr (''['' @ join '', '' quoted @ '']'')"
    by blast
  from d(3) e have "map Inr quoted = (map Inr [''\"ex1\"'', ''\"ex2\"''] :: (error + string) list)"
    by simp
  then have "quoted = [''\"ex1\"'', ''\"ex2\"'']"
    by (simp only: inj_map_eq_map[OF inj_Inr])
  with d(4) have "handle python_ints 1238 d ''codenames_json'' = Inr ''[\"ex1\", \"ex2\"]''"
    by simp
  with d(1,2) j u running_world_eq show ?thesis by auto
qed

subsection \<open>The frame of \<open>set_point\<close>\<close>

lemma undeclared_replies:
  fixes now :: "'n::{minus,ord}"
  assumes "codename \<notin> set (codenames d)"
    and "command \<in> {''raw'', ''json'', ''raw_wn'', ''codenames_raw'', ''codenames_json''}"
  shows "handle py now (d\<lparr>data := AList.update codename point (data d)\<rparr>) command =
         handle py now d command"
proof -
  let ?d = "d\<lparr>data := AList.update codename point (data d)\<rparr>"
  have ne: "c \<noteq> codename" if "c \<in> set (codenames d)" for c using that assms(1) by auto
  have a: "for_each (old_or now ?d OLD_DATA (format_point py)) (codenames d) =
           for_each (old_or now d OLD_DATA (format_point py)) (codenames d)"
    by (rule for_each_cong) (simp add: old_or_update ne)
  have b: "for_each (old_or now ?d (JString OLD_DATA) tuple) (codenames d) =
           for_each (old_or now d (JString OLD_DATA) tuple) (codenames d)"
    by (rule for_each_cong) (simp add: old_or_update ne)
  have c: "for_each (\<lambda>codename. old_or now ?d (codename @ '':'' @ OLD_DATA)
                   (\<lambda>point. codename @ '':'' @ format_point py point) codename) (codenames d) =
           for_each (\<lambda>codename. old_or now d (codename @ '':'' @ OLD_DATA)
                   (\<lambda>point. codename @ '':'' @ format_point py point) codename) (codenames d)"
    by (rule for_each_cong) (simp add: old_or_update ne)
  have "all_values py now ?d command = all_values py now d command"
    using assms(2) a b c by (auto simp: all_values_def)
  moreover have "count_list command CHR ''#'' \<noteq> 1" using assms(2) by auto
  ultimately show ?thesis by (simp add: handle_def)
qed

lemma for_each_item_of:
  assumes "for_each f xs = Inr ys" "x \<in> set xs"
  shows "\<exists>y \<in> set ys. f x = Inr y"
  using assms
proof (induction xs arbitrary: ys)
  case Nil
  then show ?case by simp
next
  case (Cons a xs)
  from Cons.prems(1) obtain b bs where b: "f a = Inr b" "for_each f xs = Inr bs" "ys = b # bs"
    by (auto split: sum.splits)
  with Cons.prems(2) Cons.IH[OF b(2)] show ?case by auto
qed

lemma undeclared_json_wn:
  fixes now :: "'n::{minus,ord}"
  assumes "codename \<notin> set (codenames d)" "dataset_inv d"
    "type d = ''data'' \<or> type d = ''date''"
  shows "\<exists>datacopy. handle py now (d\<lparr>data := AList.update codename point (data d)\<rparr>)
                         ''json_wn'' = dumps py (JObject datacopy) \<and>
                    map_of datacopy codename = Some (tuple point)"
proof -
  let ?d = "d\<lparr>data := AList.update codename point (data d)\<rparr>"
  let ?copy = "map (\<lambda>(k, point). (k, tuple point)) (data ?d)"
  have i: "dataset_inv ?d" using assms(2) by (rule set_point_inv)
  have t: "type ?d = ''data'' \<or> type ?d = ''date''" using assms(3) by simp
  have "\<exists>r. mark_old now ?d (codenames ?d) ?copy = Inr r"
    by (rule mark_old_total[OF t]) (rule inv_points[OF i])
  then obtain r where r: "mark_old now ?d (codenames ?d) ?copy = Inr r" by blast
  have "codename \<notin> set (codenames ?d)" using assms(1) by simp
  from mark_old_other[OF r this] have "map_of r codename = Some (tuple point)"
    by (simp add: copy_lookup AList.update_conv')
  moreover have "handle py now ?d ''json_wn'' = dumps py (JObject r)"
    using r by (simp add: handle_def all_values_def)
  ultimately show ?thesis by blast
qed

lemma json_wn_text:
  assumes "dumps py (JObject datacopy) = Inr reply" "map_of datacopy k = Some v"
  shows "\<exists>key val pre post. encode_basestring_ascii k = Inr key \<and> dumps py v = Inr val \<and>
           reply = pre @ key @ '': '' @ val @ post"
proof -
  let ?item = "\<lambda>(k, v). case encode_basestring_ascii k of
                       Inl e \<Rightarrow> Inl e
                     | Inr key \<Rightarrow>
                         (case dumps py v of
                            Inl e \<Rightarrow> Inl e
                          | Inr val \<Rightarrow> Inr (key @ '': '' @ val))"
  from assms(1) obtain items where
    s: "sequence (map ?item datacopy) = Inr items"
    and reply: "reply = ''{'' @ join '', '' items @ ''}''"
    by (auto split: sum.splits)
  from s have f: "for_each ?item datacopy = Inr items" by (simp only: sequence_map)
  have "(k, v) \<in> set datacopy" using assms(2) by (rule map_of_SomeD)
  from for_each_item_of[OF f this] obtain it where
    it: "it \<in> set items" "?item (k, v) = Inr it" by blast
  from it(2) obtain key val where kv: "encode_basestring_ascii k = Inr key"
    "dumps py v = Inr val" "it = key @ '': '' @ val"
    by (auto split: sum.splits)
  from join_contains[OF it(1), of "'', ''"] obtain pre post where
    "join '', '' items = pre @ it @ post" by blast
  then have "reply = (''{'' @ pre) @ key @ '': '' @ val @ (post @ ''}'')"
    using reply kv(3) by simp
  with kv(1,2) show ?thesis by blast
qed

text \<open>
  Claim C10, as stated, fails in its last part: a \<open>set_point\<close> for the undeclared
  codename \<open>'\xff'\<close> inserts the key, as the claim says, but the key appears in no reply
  to \<open>json_wn\<close>: from then on \<open>json.dumps\<close> raises on it.
\<close>

theorem undecodable_key_json_wn:
  "[CHR 0xFF] \<notin> set (codenames (new_data [''ex1'', ''ex2''] 47 47 :: int dataset)) \<and>
   DATA running_world (self_port running_thread) = Some (new_data [''ex1'', ''ex2''] 47 47) \<and>
   set_point running_thread [CHR 0xFF] (3, 4) running_world =
     (Inr (),
      running_world\<lparr>DATA := (DATA running_world)(self_port running_thread \<mapsto>
        \<lparr>type = ''data'', codenames = [''ex1'', ''ex2''],
         data = [(''ex1'', (47, 47)), (''ex2'', (47, 47)), ([CHR 0xFF], (3, 4))],
         timeouts = []\<rparr>)\<rparr>) \<and>
   handle python_ints 1238
     \<lparr>type = ''data'', codenames = [''ex1'', ''ex2''],
      data = [(''ex1'', (47, 47)), (''ex2'', (47, 47)), ([CHR 0xFF], (3, 4))],
      timeouts = []\<rparr> ''json_wn'' = Inl UnicodeDecodeError"
proof -
  have r: "running_world =
      \<lparr>DATA = [9000 \<mapsto> new_data [''ex1'', ''ex2''] 47 47], sockets = {9000}\<rparr>"
    by (simp add: running_world_def running_world_eq)
  have e: "DATA running_world (self_port running_thread) =
      Some (new_data [''ex1'', ''ex2''] 47 47)"
    by (simp add: r running_thread_eq)
  have c: "[CHR 0xFF] \<notin> set (codenames (new_data [''ex1'', ''ex2''] 47 47 :: int dataset))"
    by (simp add: new_data_def)
  have s: "set_point running_thread [CHR 0xFF] (3, 4) running_world =
     (Inr (),
      running_world\<lparr>DATA := (DATA running_world)(self_port running_thread \<mapsto>
        \<lparr>type = ''data'', codenames = [''ex1'', ''ex2''],
         data = [(''ex1'', (47, 47)), (''ex2'', (47, 47)), ([CHR 0xFF], (3, 4))],
         timeouts = []\<rparr>)\<rparr>)"
    unfolding set_point_entry[OF e] by (simp add: new_data_def)
  have u: "encode_basestring_ascii ''ex1'' = Inr ''\"ex1\"'' \<and>
           encode_basestring_ascii ''ex2'' = Inr ''\"ex2\"'' \<and>
           encode_basestring_ascii [CHR 0xFF] = Inl UnicodeDecodeError"
    by (simp add: encode_basestring_ascii_def quote_def escape_def char_of_eq_iff)
  have h: "handle python_ints 1238
     \<lparr>type = ''data'', codenames = [''ex1'', ''ex2''],
      data = [(''ex1'', (47, 47)), (''ex2'', (47, 47)), ([CHR 0xFF], (3, 4))],
      timeouts = []\<rparr> ''json_wn'' = Inl UnicodeDecodeError"
    by (simp add: handle_def all_values_def old_data_def u tuple_def)
  show ?thesis using c e s h by simp
qed

text \<open>
  Claim C10, amended. \<open>set_point\<close> on a port that has an entry replaces that entry by
  one that differs in the point of the codename only: type, codenames and timeouts are
  the same, every other codename has the point it had, and no other port and no socket
  changes. For a codename that is not among the codenames, the key is new in \<open>data\<close> and
  the commands \<open>raw\<close>, \<open>json\<close>, \<open>raw_wn\<close>, \<open>codenames_raw\<close> and \<open>codenames_json\<close> are
  answered as before the call. On an entry with the invariants, when the new key and the
  keys already in \<open>data\<close> decode as UTF-8, the reply to \<open>json_wn\<close> is the text of a
  dictionary that maps the key to the point, in which the quoted key, a colon and the
  point occur.
\<close>

theorem set_point_frame:
  fixes now :: "'n::{minus,ord}"
  assumes "DATA w (self_port self) = Some d"
  shows "\<exists>d'. set_point self codename point w =
                (Inr (), w\<lparr>DATA := (DATA w)(self_port self \<mapsto> d')\<rparr>) \<and>
              type d' = type d \<and> codenames d' = codenames d \<and> timeouts d' = timeouts d \<and>
              map_of (data d') codename = Some point \<and>
              (\<forall>other. other \<noteq> codename \<longrightarrow> map_of (data d') other = map_of (data d) other) \<and>
              (codename \<notin> set (codenames d) \<longrightarrow>
                 (\<forall>command \<in> {''raw'', ''json'', ''raw_wn'', ''codenames_raw'',
                                ''codenames_json''}.
                    handle py now d' command = handle py now d command) \<and>
                 (dataset_inv d \<and> (type d = ''data'' \<or> type d = ''date'') \<and>
                  valid_utf8 codename \<and> (\<forall>k \<in> fst ` set (data d). valid_utf8 k) \<longrightarrow>
                    (\<exists>datacopy reply key val pre post.
                       handle py now d' ''json_wn'' = Inr reply \<and>
                       dumps py (JObject datacopy) = Inr reply \<and>
                       map_of datacopy codename = Some (tuple point) \<and>
                       encode_basestring_ascii codename = Inr key \<and>
                       dumps py (tuple point) = Inr val \<and>
                       reply = pre @ key @ '': '' @ val @ post)))"
proof -
  let ?d = "d\<lparr>data := AList.update codename point (data d)\<rparr>"
  have s: "set_point self codename point w =
      (Inr (), w\<lparr>DATA := (DATA w)(self_port self \<mapsto> ?d)\<rparr>)"
    using assms by (rule set_point_entry)
  have m: "map_of (data ?d) codename = Some point" by (simp add: AList.update_conv')
  have o: "\<forall>other. other \<noteq> codename \<longrightarrow> map_of (data ?d) other = map_of (data d) other"
    by (simp add: AList.update_conv')
  have u: "\<forall>command \<in> {''raw'', ''json'', ''raw_wn'', ''codenames_raw'', ''codenames_json''}.
             handle py now ?d command = handle py now d command"
    if "codename \<notin> set (codenames d)"
    using undeclared_replies[OF that, of _ py now point] by blast
  have j: "\<exists>datacopy reply key val pre post.
             handle py now ?d ''json_wn'' = Inr reply \<and>
             dumps py (JObject datacopy) = Inr reply \<and>
             map_of datacopy codename = Some (tuple point) \<and>
             encode_basestring_ascii codename = Inr key \<and>
             dumps py (tuple point) = Inr val \<and>
             reply = pre @ key @ '': '' @ val @ post"
    if n: "codename \<notin> set (codenames d)"
      and h: "dataset_inv d \<and> (type d = ''data'' \<or> type d = ''date'') \<and>
              valid_utf8 codename \<and> (\<forall>k \<in> fst ` set (data d). valid_utf8 k)"
  proof -
    have i: "dataset_inv ?d" using h by (simp add: set_point_inv)
    have t: "type ?d = ''data'' \<or> type ?d = ''date''" using h by simp
    have k: "\<forall>k \<in> fst ` set (data ?d). valid_utf8 k"
      using h by (simp add: AList.dom_update)
    have "\<exists>r. all_values py now ?d ''json_wn'' = Inr r"
    proof (rule all_values_total[OF t])
      show "map_of (data ?d) c \<noteq> None" if "c \<in> set (codenames ?d)" for c
        using i that by (rule inv_points)
      show "valid_utf8 k" if "k \<in> fst ` set (data ?d)" for k
        using k that by blast
    qed
    then obtain reply where reply: "handle py now ?d ''json_wn'' = Inr reply"
      by (auto simp: handle_def)
    from undeclared_json_wn[of codename d py now point] n h
    obtain datacopy where dc: "handle py now ?d ''json_wn'' = dumps py (JObject datacopy)"
      "map_of datacopy codename = Some (tuple point)" by blast
    from dc(1) reply have dr: "dumps py (JObject datacopy) = Inr reply" by simp
    from json_wn_text[OF dr dc(2)] reply dr dc(2) show ?thesis by blast
  qed
  show ?thesis
  proof (intro exI[of _ ?d] conjI impI)
    show "set_point self codename point w =
      (Inr (), w\<lparr>DATA := (DATA w)(self_port self \<mapsto> ?d)\<rparr>)" by (rule s)
    show "type ?d = type d" "codenames ?d = codenames d" "timeouts ?d = timeouts d"
      by simp_all
    show "map_of (data ?d) codename = Some point" by (rule m)
    show "\<forall>other. other \<noteq> codename \<longrightarrow> map_of (data ?d) other = map_of (data d) other"
      by (rule o)
  next
    assume "codename \<notin> set (codenames d)"
    then show "\<forall>command \<in> {''raw'', ''json'', ''raw_wn'', ''codenames_raw'', ''codenames_json''}.
             handle py now ?d command = handle py now d command"
      by (rule u)
  next
    assume "codename \<notin> set (codenames d)"
      "dataset_inv d \<and> (type d = ''data'' \<or> type d = ''date'') \<and>
       valid_utf8 codename \<and> (\<forall>k \<in> fst ` set (data d). valid_utf8 k)"
    then show "\<exists>datacopy reply key val pre post.
             handle py now ?d ''json_wn'' = Inr reply \<and>
             dumps py (JObject datacopy) = Inr reply \<and>
             map_of datacopy codename = Some (tuple point) \<and>
             encode_basestring_ascii codename = Inr key \<and>
             dumps py (tuple point) = Inr val \<and>
             reply = pre @ key @ '': '' @ val @ post"
      by (rule j)
  qed
qed

theorem set_point_frame_witness:
  "DATA running_world (self_port running_thread) = Some (new_data [''ex1'', ''ex2''] 47 47) \<and>
   ''ex0'' \<notin> set (codenames (new_data [''ex1'', ''ex2''] 47 47 :: int dataset)) \<and>
   dataset_inv (new_data [''ex1'', ''ex2''] 47 47 :: int dataset) \<and>
   type (new_data [''ex1'', ''ex2''] 47 47 :: int dataset) = ''data'' \<and>
   valid_utf8 ''ex0'' \<and> valid_utf8 ''ex1'' \<and> valid_utf8 ''ex2'' \<and>
   fst ` set (data (new_data [''ex1'', ''ex2''] 47 47 :: int dataset)) = {''ex1'', ''ex2''} \<and>
   (\<exists>d'. DATA (snd (set_point running_thread ''ex0'' (3, 4) running_world)) 9000 = Some d' \<and>
         codenames d' = [''ex1'', ''ex2''] \<and>
         map_of (data d') ''ex0'' = Some (3, 4) \<and>
         handle python_ints 1238 d' ''raw'' = Inr ''47,47;47,47'' \<and>
         (\<exists>pre post. handle python_ints 1238 d' ''json_wn'' =
                        Inr (pre @ ''\"ex0\": [3, 4]'' @ post)))"
proof -
  have r: "running_world =
      \<lparr>DATA = [9000 \<mapsto> new_data [''ex1'', ''ex2''] 47 47], sockets = {9000}\<rparr>"
    by (simp add: running_world_def running_world_eq)
  have e: "DATA running_world (self_port running_thread) =
      Some (new_data [''ex1'', ''ex2''] 47 47)"
    by (simp add: r running_thread_eq)
  have i: "dataset_inv (new_data [''ex1'', ''ex2''] 47 47 :: int dataset)"
    by (simp add: dataset_inv_def new_data_def BAD_CHARS_def)
  have c: "''ex0'' \<notin> set (codenames (new_data [''ex1'', ''ex2''] 47 47 :: int dataset))"
    by (simp add: new_data_def)
  have n: "codenames (new_data [''ex1'', ''ex2''] 47 47 :: int dataset) = [''ex1'', ''ex2'']"
    by (simp add: new_data_def)
  have t: "type (new_data [''ex1'', ''ex2''] 47 47 :: int dataset) = ''data''"
    by (simp add: new_data_def)
  have v: "valid_utf8 ''ex0'' \<and> valid_utf8 ''ex1'' \<and> valid_utf8 ''ex2''"
    by (simp add: valid_utf8_def)
  have f: "fst ` set (data (new_data [''ex1'', ''ex2''] 47 47 :: int dataset)) =
           {''ex1'', ''ex2''}"
    by (simp add: new_data_def)
  have vk: "\<forall>k \<in> fst ` set (data (new_data [''ex1'', ''ex2''] 47 47 :: int dataset)).
              valid_utf8 k"
    unfolding f using v by simp
  have raw: "handle python_ints 1238 (new_data [''ex1'', ''ex2''] 47 47) ''raw'' =
             Inr ''47,47;47,47''"
    by (simp add: handle_def all_values_def new_data_def old_or_def old_data_def
          getitem_def format_point_def python_ints_def str_int_def digits.simps)
  have k: "encode_basestring_ascii ''ex0'' = Inr ''\"ex0\"''"
    by (simp add: encode_basestring_ascii_def quote_def escape_def char_of_eq_iff)
  have p: "dumps python_ints (tuple (3, 4)) = Inr ''[3, 4]''"
    by (simp add: dumps_tuple python_ints_def str_int_def digits.simps)
  from set_point_frame [OF e, where codename = "''ex0''" and point = "(3, 4)"
         and py = python_ints and now = 1238]
  obtain d' where d': "set_point running_thread ''ex0'' (3, 4) running_world =
        (Inr (), running_world\<lparr>DATA := (DATA running_world)
           (self_port running_thread \<mapsto> d')\<rparr>)"
    and cn: "codenames d' = codenames (new_data [''ex1'', ''ex2''] 47 47 :: int dataset)"
    and mp: "map_of (data d') ''ex0'' = Some (3, 4)"
    and un: "''ex0'' \<notin> set (codenames (new_data [''ex1'', ''ex2''] 47 47 :: int dataset)) \<longrightarrow>
         (\<forall>command \<in> {''raw'', ''json'', ''raw_wn'', ''codenames_raw'', ''codenames_json''}.
            handle python_ints 1238 d' command =
              handle python_ints 1238 (new_data [''ex1'', ''ex2''] 47 47) command) \<and>
         (dataset_inv (new_data [''ex1'', ''ex2''] 47 47 :: int dataset) \<and>
            (type (new_data [''ex1'', ''ex2''] 47 47 :: int dataset) = ''data'' \<or>
             type (new_data [''ex1'', ''ex2''] 47 47 :: int dataset) = ''date'') \<and>
            valid_utf8 ''ex0'' \<and>
            (\<forall>k \<in> fst ` set (data (new_data [''ex1'', ''ex2''] 47 47 :: int dataset)).
               valid_utf8 k) \<longrightarrow>
          (\<exists>datacopy reply key val pre post.
             handle python_ints 1238 d' ''json_wn'' = Inr reply \<and>
             dumps python_ints (JObject datacopy) = Inr reply \<and>
             map_of datacopy ''ex0'' = Some (tuple (3, 4)) \<and>
             encode_basestring_ascii ''ex0'' = Inr key \<and>
             dumps python_ints (tuple (3, 4)) = Inr val \<and>
             reply = pre @ key @ '': '' @ val @ post))"
    by (elim exE conjE)
  have st: "DATA (snd (set_point running_thread ''ex0'' (3, 4) running_world)) 9000 = Some d'"
    unfolding d' by (simp add: running_thread_eq)
  have rw: "handle python_ints 1238 d' ''raw'' = Inr ''47,47;47,47''"
    using un c raw by simp
  from un c i t v vk obtain reply key val pre post where
    jw: "handle python_ints 1238 d' ''json_wn'' = Inr reply"
    and ky: "encode_basestring_ascii ''ex0'' = Inr key"
    and vl: "dumps python_ints (tuple (3, 4)) = Inr val"
    and tx: "reply = pre @ key @ '': '' @ val @ post"
    by blast
  have "key = ''\"ex0\"''" "val = ''[3, 4]''" using ky vl k p by simp_all
  then have "handle python_ints 1238 d' ''json_wn'' = Inr (pre @ ''\"ex0\": [3, 4]'' @ post)"
    using jw tx by simp
  then have js: "\<exists>pre post. handle python_ints 1238 d' ''json_wn'' =
                        Inr (pre @ ''\"ex0\": [3, 4]'' @ post)" by blast
  have cn': "codenames d' = [''ex1'', ''ex2'']" using cn n by simp
  show ?thesis
    using e c i t v f st cn' mp rw js by blast
qed

end
